theory Spec2Isabelle
  imports Main "HOL-Library.AList"
begin

section \<open>JavaScript values and strings\<close>

text \<open>
  A cell of a row is any JavaScript value (\<open>value: any\<close>). The decoder supplies
  strings, and a header that a row does not carry reads as \<open>undefined\<close>. The source
  does two things with a cell, \<open>value || ""\<close> and \<open>String(...)\<close>, so of the other values
  the model keeps what these two read:
  \<^item> of a number or bigint, whether it is truthy (it is not when it is zero or NaN)
    and the string that \<open>String\<close> prints for it;
  \<^item> of an object, array, function or symbol, all of them truthy, what \<open>String\<close>
    gives for it: a string such as \<open>[object Object]\<close>, or the TypeError that
    \<open>String(Object.create(null))\<close> throws.

  A string is a sequence of code units below 256 (the Latin-1 range), which covers
  every character that the regular expressions of the source name explicitly.
\<close>

datatype error = TypeError string | RangeError string | Unmodelled string

datatype jsval =
  JUndefined | JNull | JBool bool | JStr string | JNumber bool string | JObject "error + string"

fun truthy :: "jsval \<Rightarrow> bool" where
  "truthy JUndefined = False"
| "truthy JNull = False"
| "truthy (JBool b) = b"
| "truthy (JStr s) = (s \<noteq> [])"
| "truthy (JNumber t s) = t"
| "truthy (JObject s) = True"

text \<open>\<open>a || b\<close>\<close>

definition js_or :: "jsval \<Rightarrow> jsval \<Rightarrow> jsval" where
  "js_or a b = (if truthy a then a else b)"

text \<open>\<open>String(v)\<close>\<close>

fun String_js :: "jsval \<Rightarrow> error + string" where
  "String_js JUndefined = Inr ''undefined''"
| "String_js JNull = Inr ''null''"
| "String_js (JBool b) = Inr (if b then ''true'' else ''false'')"
| "String_js (JStr s) = Inr s"
| "String_js (JNumber t s) = Inr s"
| "String_js (JObject s) = s"

text \<open>
  White space as \<open>\s\<close> and \<open>trim\<close> see it: tab, line feed, vertical tab, form
  feed, carriage return, space and the no-break space U+00A0.
\<close>

definition is_space :: "char \<Rightarrow> bool" where
  "is_space c = (c \<in> set [CHR 0x09, CHR 0x0A, CHR 0x0B, CHR 0x0C, CHR 0x0D, CHR 0x20, CHR 0xA0])"

definition is_digit :: "char \<Rightarrow> bool" where
  "is_digit c = (c \<in> set ''0123456789'')"

definition is_lower :: "char \<Rightarrow> bool" where
  "is_lower c = (c \<in> set ''abcdefghijklmnopqrstuvwxyz'')"

definition is_upper :: "char \<Rightarrow> bool" where
  "is_upper c = (c \<in> set ''ABCDEFGHIJKLMNOPQRSTUVWXYZ'')"

definition is_alpha :: "char \<Rightarrow> bool" where
  "is_alpha c = (is_lower c \<or> is_upper c)"

text \<open>\<open>\w\<close>\<close>

definition is_word :: "char \<Rightarrow> bool" where
  "is_word c = (is_alpha c \<or> is_digit c \<or> c = CHR ''_'')"

text \<open>\<open>s.trim()\<close>\<close>

definition trim :: "string \<Rightarrow> string" where
  "trim s = rev (dropWhile is_space (rev (dropWhile is_space s)))"

text \<open>\<open>s.replace(/\s+/g, "")\<close>\<close>

definition removeWhitespace :: "string \<Rightarrow> string" where
  "removeWhitespace s = filter (\<lambda>c. \<not> is_space c) s"

text \<open>\<open>s.replace(/^0+/, "")\<close>\<close>

definition removeLeadingZeros :: "string \<Rightarrow> string" where
  "removeLeadingZeros s = dropWhile (\<lambda>c. c = CHR ''0'') s"

text \<open>
  \<open>toLowerCase\<close> and \<open>toUpperCase\<close> of one code unit, on the letters A to Z.
  The source lower-cases only a string that matched the day-month-year pattern below
  (digits, hyphens and the letters A to Z, a to z) and upper-cases only a match of
  \<open>[a-z]\<close>.
\<close>

definition toLowerCase_char :: "char \<Rightarrow> char" where
  "toLowerCase_char c =
     (case map_of (zip ''ABCDEFGHIJKLMNOPQRSTUVWXYZ'' ''abcdefghijklmnopqrstuvwxyz'') c of
        Some l \<Rightarrow> l | None \<Rightarrow> c)"

definition toLowerCase :: "string \<Rightarrow> string" where
  "toLowerCase s = map toLowerCase_char s"

definition toUpperCase_char :: "char \<Rightarrow> char" where
  "toUpperCase_char c =
     (case map_of (zip ''abcdefghijklmnopqrstuvwxyz'' ''ABCDEFGHIJKLMNOPQRSTUVWXYZ'') c of
        Some u \<Rightarrow> u | None \<Rightarrow> c)"

text \<open>
  \<open>s.replace(/\b[a-z]/g, (char) => char.toUpperCase())\<close>: a lower-case letter is
  replaced when the code unit before it is not a word character (or there is none).
  \<open>prevWord\<close> tells whether the previous code unit was a word character.
\<close>

fun capitalizeWords :: "bool \<Rightarrow> string \<Rightarrow> string" where
  "capitalizeWords prevWord [] = []"
| "capitalizeWords prevWord (c # cs) =
     (if is_lower c \<and> \<not> prevWord then toUpperCase_char c else c) # capitalizeWords (is_word c) cs"

text \<open>\<open>parseInt(digits, 10)\<close> on a string of decimal digits.\<close>

definition digit_value :: "char \<Rightarrow> nat" where
  "digit_value c =
     (case map_of (zip ''0123456789'' [0, 1, 2, 3, 4, 5, 6, 7, 8, 9]) c of
        Some d \<Rightarrow> d | None \<Rightarrow> 0)"

definition parseInt :: "string \<Rightarrow> nat" where
  "parseInt s = foldl (\<lambda>n c. 10 * n + digit_value c) 0 s"

text \<open>\<open>String(n).padStart(w, "0")\<close> for a natural number.\<close>

fun digits_of :: "nat \<Rightarrow> string" where
  "digits_of n =
     (if n < 10 then [''0123456789'' ! n]
      else digits_of (n div 10) @ [''0123456789'' ! (n mod 10)])"

declare digits_of.simps [simp del]

definition padStart0 :: "nat \<Rightarrow> string \<Rightarrow> string" where
  "padStart0 w s = replicate (w - length s) (CHR ''0'') @ s"

text \<open>\<open>/^\d{1,2}-[a-zA-Z]{3}-\d{2,4}$/.test(s)\<close>\<close>

definition isDayMonthAbbrevYear :: "string \<Rightarrow> bool" where
  "isDayMonthAbbrevYear s =
     (let d = takeWhile is_digit s; r = dropWhile is_digit s
      in (length d = 1 \<or> length d = 2) \<and>
         (case r of
            h1 # m1 # m2 # m3 # h2 # y \<Rightarrow>
              h1 = CHR ''-'' \<and> is_alpha m1 \<and> is_alpha m2 \<and> is_alpha m3 \<and> h2 = CHR ''-'' \<and>
              list_all is_digit y \<and> 2 \<le> length y \<and> length y \<le> 4
          | _ \<Rightarrow> False))"

text \<open>\<open>/^\d{4}-\d{2}-\d{2}$/\<close>\<close>

definition isIsoDate :: "string \<Rightarrow> bool" where
  "isIsoDate s =
     (case s of
        [y1, y2, y3, y4, h1, m1, m2, h2, d1, d2] \<Rightarrow>
          list_all is_digit [y1, y2, y3, y4, m1, m2, d1, d2] \<and> h1 = CHR ''-'' \<and> h2 = CHR ''-''
      | _ \<Rightarrow> False)"

section \<open>Dates\<close>

text \<open>
  A \<open>Date\<close> object is either the Invalid Date (\<open>None\<close>) or an instant, of which the
  source reads only the local calendar day (\<open>getFullYear\<close>, \<open>getMonth\<close> counted from 0,
  \<open>getDate\<close>).
\<close>

record jsdate =
  fullYear :: int
  monthIndex :: nat
  dayOfMonth :: nat

type_synonym Date = "jsdate option"

text \<open>
  What a run takes from its surroundings: \<open>now\<close> is the local calendar day of
  \<open>new Date()\<close> (the reference date handed to \<open>parse\<close>), \<open>nativeDate s\<close> is the
  engine's \<open>new Date(s)\<close> read in the local time zone, \<open>isoNow\<close> is
  \<open>new Date().toISOString()\<close> at the end of the run, \<open>duration\<close> is the elapsed time
  in seconds as \<open>toFixed(2)\<close> prints it. Every \<open>new Date()\<close> of one run falls on the
  same day.
\<close>

record env =
  now :: jsdate
  nativeDate :: "string \<Rightarrow> Date"
  isoNow :: string
  duration :: string

text \<open>\<open>isValid(d)\<close>\<close>

definition isValid :: "Date \<Rightarrow> bool" where
  "isValid d = (d \<noteq> None)"

subsection \<open>The date library: \<open>format\<close>\<close>

text \<open>
  \<open>format(d, "yyyy-MM-dd")\<close>. The library throws a RangeError on the Invalid Date.
  Its year token prints \<open>1 - y\<close> for a year \<open>y\<close> that is not positive.
\<close>

definition addLeadingZeros :: "nat \<Rightarrow> nat \<Rightarrow> string" where
  "addLeadingZeros number targetLength = padStart0 targetLength (digits_of number)"

definition format_yyyy_MM_dd :: "Date \<Rightarrow> error + string" where
  "format_yyyy_MM_dd d =
     (case d of
        None \<Rightarrow> Inl (RangeError ''Invalid time value'')
      | Some dt \<Rightarrow>
          (let signedYear = fullYear dt;
               year = (if signedYear > 0 then signedYear else 1 - signedYear)
           in Inr (addLeadingZeros (nat year) 4 @ ''-'' @
                   addLeadingZeros (monthIndex dt + 1) 2 @ ''-'' @
                   addLeadingZeros (dayOfMonth dt) 2)))"

subsection \<open>The date library: \<open>parse\<close>\<close>

text \<open>
  The format string is cut into tokens by the library's regular expression
  \<open>/[yYQqMLwIdDecihHKkms]o|(\w)\1*|''|'(''|[^'])+('|$)|./g\<close>: a unit letter followed by
  \<open>o\<close>, a run of one repeated word character, two quotes, a quoted literal, or any
  single character but a line break.
\<close>

text \<open>The body \<open>(''|[^'])+\<close> of a quoted literal: what it matches, and what is left.\<close>

fun quotedBody :: "string \<Rightarrow> string \<times> string" where
  "quotedBody [] = ([], [])"
| "quotedBody [c] = (if c = CHR 0x27 then ([], [c]) else ([c], []))"
| "quotedBody (c # c' # cs) =
     (if c = CHR 0x27 then
        (if c' = CHR 0x27 then (let (b, r) = quotedBody cs in (c # c' # b, r))
         else ([], c # c' # cs))
      else (let (b, r) = quotedBody (c' # cs) in (c # b, r)))"

lemma quotedBody_length: "length (snd (quotedBody s)) \<le> length s"
  by (induction s rule: quotedBody.induct) (auto split: prod.splits)

function formatTokens :: "string \<Rightarrow> string list" where
  "formatTokens [] = []"
| "formatTokens (c # cs) =
     (if c \<in> set ''yYQqMLwIdDecihHKkms'' \<and> cs \<noteq> [] \<and> hd cs = CHR ''o''
      then [c, CHR ''o''] # formatTokens (tl cs)
      else if is_word c
      then (c # takeWhile (\<lambda>x. x = c) cs) # formatTokens (dropWhile (\<lambda>x. x = c) cs)
      else if c = CHR 0x27 \<and> cs \<noteq> [] \<and> hd cs = CHR 0x27
      then [c, c] # formatTokens (tl cs)
      else if c = CHR 0x27 \<and> fst (quotedBody cs) \<noteq> []
      then (let (b, r) = quotedBody cs
            in if r = [] then (c # b) # formatTokens []
               else (c # b @ [CHR 0x27]) # formatTokens (tl r))
      else if c = CHR 0x0A \<or> c = CHR 0x0D then formatTokens cs
      else [c] # formatTokens cs)"
  by pat_completeness auto
termination
proof (relation "measure length")
  show "wf (measure length)" by simp
next
  fix c :: char and cs x xa y
  assume "x = quotedBody cs" "(xa, y) = x" "y \<noteq> []"
  then have "y = snd (quotedBody cs)" by (metis snd_conv)
  then have "length y \<le> length cs" by (simp add: quotedBody_length)
  with \<open>y \<noteq> []\<close> show "(tl y, c # cs) \<in> measure length" by (cases y) auto
qed (auto simp: le_imp_less_Suc length_dropWhile_le)

text \<open>\<open>cleanEscapedString\<close>: the quotes around a literal go, a doubled quote is one quote.\<close>

fun unescapeQuotes :: "string \<Rightarrow> string" where
  "unescapeQuotes (c # c' # cs) =
     (if c = CHR 0x27 \<and> c' = CHR 0x27 then c # unescapeQuotes cs else c # unescapeQuotes (c' # cs))"
| "unescapeQuotes cs = cs"

definition cleanEscapedString :: "string \<Rightarrow> string" where
  "cleanEscapedString token =
     (let t = tl token;
          t' = (if t \<noteq> [] \<and> last t = CHR 0x27 then butlast t else t)
      in unescapeQuotes t')"

text \<open>
  What a unit token reads from the input, as the library stores it in a setter:
  the year with the flag \<open>isTwoDigitYear\<close>, the month counted from 0, the day, the
  hour, the minute, the second.
\<close>

datatype setter =
  SetYear nat bool | SetMonth int | SetDate nat | SetHours nat | SetMinutes nat | SetSeconds nat

text \<open>\<open>parseNDigits(n, s)\<close> for n from 1 to 4: the pattern \<open>/^\d{1,n}/\<close>.\<close>

definition parseNDigits :: "nat \<Rightarrow> string \<Rightarrow> (nat \<times> string) option" where
  "parseNDigits n s =
     (let ds = takeWhile is_digit (take n s)
      in if ds = [] then None else Some (parseInt ds, drop (length ds) s))"

text \<open>
  \<open>parseNumericPattern\<close> for the patterns \<open>numericPatterns.date\<close>,
  \<open>/^(3[0-1]|[0-2]?\d)/\<close>, and \<open>numericPatterns.month\<close>, \<open>/^(1[0-2]|0?\d)/\<close>: two
  digits where the pattern admits the pair, one digit otherwise.
\<close>

definition parseNumericPattern :: "(char \<Rightarrow> char \<Rightarrow> bool) \<Rightarrow> string \<Rightarrow> (nat \<times> string) option" where
  "parseNumericPattern pair s =
     (case s of
        [] \<Rightarrow> None
      | [c] \<Rightarrow> if is_digit c then Some (parseInt [c], []) else None
      | c # c' # cs \<Rightarrow>
          if is_digit c \<and> is_digit c' \<and> pair c c' then Some (parseInt [c, c'], cs)
          else if is_digit c then Some (parseInt [c], c' # cs)
          else None)"

definition datePattern :: "char \<Rightarrow> char \<Rightarrow> bool" where
  "datePattern c c' = ((c = CHR ''3'' \<and> c' \<in> set ''01'') \<or> c \<in> set ''012'')"

definition monthPattern :: "char \<Rightarrow> char \<Rightarrow> bool" where
  "monthPattern c c' = ((c = CHR ''1'' \<and> c' \<in> set ''012'') \<or> c = CHR ''0'')"

text \<open>
  \<open>match.month\<close> of the default locale for the token \<open>MMM\<close>: the abbreviated pattern
  \<open>/^(jan|feb|mar|apr|may|jun|jul|aug|sep|oct|nov|dec)/i\<close>, and when that fails the
  narrow pattern \<open>/^[jfmasond]/i\<close>, whose value is the first month with that initial.
\<close>

fun indexOf :: "'a \<Rightarrow> 'a list \<Rightarrow> nat option" where
  "indexOf x [] = None"
| "indexOf x (y # ys) = (if x = y then Some 0 else map_option Suc (indexOf x ys))"

definition monthAbbreviations :: "string list" where
  "monthAbbreviations =
     [''jan'', ''feb'', ''mar'', ''apr'', ''may'', ''jun'',
      ''jul'', ''aug'', ''sep'', ''oct'', ''nov'', ''dec'']"

definition matchMonthAbbreviated :: "string \<Rightarrow> (nat \<times> string) option" where
  "matchMonthAbbreviated s =
     (if length s < 3 then None
      else map_option (\<lambda>i. (i, drop 3 s)) (indexOf (toLowerCase (take 3 s)) monthAbbreviations))"

definition matchMonthNarrow :: "string \<Rightarrow> (nat \<times> string) option" where
  "matchMonthNarrow s =
     (case s of
        [] \<Rightarrow> None
      | c # cs \<Rightarrow> map_option (\<lambda>i. (i, cs)) (indexOf (toLowerCase_char c) ''jfmamjjasond''))"

definition matchMonth :: "string \<Rightarrow> (nat \<times> string) option" where
  "matchMonth s = (case matchMonthAbbreviated s of Some r \<Rightarrow> Some r | None \<Rightarrow> matchMonthNarrow s)"

text \<open>
  The parser of one unit token. The tokens of the source's format list are modelled;
  any other token made of a letter ends the model with \<open>Unmodelled\<close>, which the
  theorems below treat as a throw.
\<close>

definition withSetter :: "(nat \<Rightarrow> setter) \<Rightarrow> (nat \<times> string) option \<Rightarrow> error + (setter \<times> string) option" where
  "withSetter f r = Inr (map_option (\<lambda>(v, rest). (f v, rest)) r)"

definition runParser :: "string \<Rightarrow> string \<Rightarrow> error + (setter \<times> string) option" where
  "runParser token s =
     (if token = ''yy'' then withSetter (\<lambda>v. SetYear v True) (parseNDigits 2 s)
      else if token = ''yyyy'' then withSetter (\<lambda>v. SetYear v False) (parseNDigits 4 s)
      else if token = ''M'' then withSetter (\<lambda>v. SetMonth (int v - 1)) (parseNumericPattern monthPattern s)
      else if token = ''MM'' then withSetter (\<lambda>v. SetMonth (int v - 1)) (parseNDigits 2 s)
      else if token = ''MMM'' then withSetter (\<lambda>v. SetMonth (int v)) (matchMonth s)
      else if token = ''d'' then withSetter SetDate (parseNumericPattern datePattern s)
      else if token = ''dd'' then withSetter SetDate (parseNDigits 2 s)
      else if token = ''HH'' then withSetter SetHours (parseNDigits 2 s)
      else if token = ''mm'' then withSetter SetMinutes (parseNDigits 2 s)
      else if token = ''ss'' then withSetter SetSeconds (parseNDigits 2 s)
      else Inl (Unmodelled token))"

text \<open>
  The loop of \<open>parse\<close> over the tokens. A unit letter used twice is a RangeError (among
  the units modelled no other pair is incompatible); a letter that is no unit and
  stands outside quotes is a RangeError; a literal has to be a prefix of the input.
  \<open>Inr None\<close> is the Invalid Date returned as soon as the input does not fit.
  \<open>parserLetters\<close> are the letters that name a parser of the library, and \<open>P\<close> and
  \<open>p\<close>, which the library expands to a localized format before it cuts the tokens.
\<close>

definition parserLetters :: "string" where
  "parserLetters = ''GyYRuQqMLwIdDEeciabBhHKkmsSXxtTPp''"

fun parseLoop :: "string list \<Rightarrow> string \<Rightarrow> string \<Rightarrow> setter list \<Rightarrow> error + (setter list \<times> string) option" where
  "parseLoop [] usedTokens dateStr setters = Inr (Some (setters, dateStr))"
| "parseLoop (token # tokens) usedTokens dateStr setters =
     (let firstCharacter = hd token in
      if firstCharacter \<in> set parserLetters then
        (if firstCharacter \<in> set usedTokens
         then Inl (RangeError ''The format string must not contain the same unit twice'')
         else (case runParser token dateStr of
                 Inl e \<Rightarrow> Inl e
               | Inr None \<Rightarrow> Inr None
               | Inr (Some (st, rest)) \<Rightarrow>
                   parseLoop tokens (firstCharacter # usedTokens) rest (setters @ [st])))
      else if is_alpha firstCharacter
      then Inl (RangeError ''Format string contains an unescaped latin alphabet character'')
      else (let literal = (if token = [CHR 0x27, CHR 0x27] then [CHR 0x27]
                           else if firstCharacter = CHR 0x27 then cleanEscapedString token
                           else token)
            in if take (length literal) dateStr = literal
               then parseLoop tokens usedTokens (drop (length literal) dateStr) setters
               else Inr None))"

text \<open>
  The setters run by descending priority, each one validated on the date so far. The
  hour, minute and second are validated and leave the calendar day as it is.
\<close>

fun priority :: "setter \<Rightarrow> nat" where
  "priority (SetYear y t) = 130"
| "priority (SetMonth m) = 110"
| "priority (SetDate d) = 90"
| "priority (SetHours h) = 70"
| "priority (SetMinutes m) = 60"
| "priority (SetSeconds s) = 50"

definition isLeapYearIndex :: "int \<Rightarrow> bool" where
  "isLeapYearIndex year = (year mod 400 = 0 \<or> (year mod 4 = 0 \<and> year mod 100 \<noteq> 0))"

definition DAYS_IN_MONTH :: "nat list" where
  "DAYS_IN_MONTH = [31, 28, 31, 30, 31, 30, 31, 31, 30, 31, 30, 31]"

definition DAYS_IN_MONTH_LEAP_YEAR :: "nat list" where
  "DAYS_IN_MONTH_LEAP_YEAR = [31, 29, 31, 30, 31, 30, 31, 31, 30, 31, 30, 31]"

fun validate :: "jsdate \<Rightarrow> setter \<Rightarrow> bool" where
  "validate date (SetYear y t) = (t \<or> y > 0)"
| "validate date (SetMonth m) = (m \<ge> 0 \<and> m \<le> 11)"
| "validate date (SetDate d) =
     (if isLeapYearIndex (fullYear date)
      then d \<ge> 1 \<and> d \<le> DAYS_IN_MONTH_LEAP_YEAR ! monthIndex date
      else d \<ge> 1 \<and> d \<le> DAYS_IN_MONTH ! monthIndex date)"
| "validate date (SetHours h) = (h \<le> 23)"
| "validate date (SetMinutes m) = (m \<le> 59)"
| "validate date (SetSeconds s) = (s \<le> 59)"

text \<open>
  \<open>normalizeTwoDigitYear\<close>: the century of a two-digit year is the one that puts the
  year within fifty years of the reference year.
\<close>

definition normalizeTwoDigitYear :: "int \<Rightarrow> int \<Rightarrow> int" where
  "normalizeTwoDigitYear twoDigitYear currentYear =
     (let isCommonEra = currentYear > 0;
          absCurrentYear = (if isCommonEra then currentYear else 1 - currentYear);
          result =
            (if absCurrentYear \<le> 50 then (if twoDigitYear = 0 then 100 else twoDigitYear)
             else (let rangeEnd = absCurrentYear + 50;
                       rangeEndCentury = (rangeEnd div 100) * 100;
                       isPreviousCentury = twoDigitYear \<ge> rangeEnd mod 100
                   in twoDigitYear + rangeEndCentury - (if isPreviousCentury then 100 else 0)))
      in if isCommonEra then result else 1 - result)"

fun applySetter :: "jsdate \<Rightarrow> setter \<Rightarrow> jsdate" where
  "applySetter date (SetYear y t) =
     \<lparr>fullYear = (if t then normalizeTwoDigitYear (int y) (fullYear date) else int y),
      monthIndex = 0, dayOfMonth = 1\<rparr>"
| "applySetter date (SetMonth m) = date\<lparr>monthIndex := nat m, dayOfMonth := 1\<rparr>"
| "applySetter date (SetDate d) = date\<lparr>dayOfMonth := d\<rparr>"
| "applySetter date (SetHours h) = date"
| "applySetter date (SetMinutes m) = date"
| "applySetter date (SetSeconds s) = date"

fun applySetters :: "jsdate \<Rightarrow> setter list \<Rightarrow> Date" where
  "applySetters date [] = Some date"
| "applySetters date (st # sts) =
     (if validate date st then applySetters (applySetter date st) sts else None)"

text \<open>
  \<open>parse(dateStr, formatStr, referenceDate)\<close>. An empty format string accepts the empty
  input only; a format string in which the regular expression finds no token (line
  breaks only) makes the library call \<open>map\<close> on \<open>null\<close>; input left over after the last
  token has to be white space.
\<close>

definition parse :: "string \<Rightarrow> string \<Rightarrow> jsdate \<Rightarrow> error + Date" where
  "parse dateStr formatStr referenceDate =
     (if formatStr = [] then Inr (if dateStr = [] then Some referenceDate else None)
      else if formatTokens formatStr = []
      then Inl (TypeError ''Cannot read properties of null'')
      else (case parseLoop (formatTokens formatStr) [] dateStr [] of
              Inl e \<Rightarrow> Inl e
            | Inr None \<Rightarrow> Inr None
            | Inr (Some (setters, rest)) \<Rightarrow>
                if list_ex (\<lambda>c. \<not> is_space c) rest then Inr None
                else Inr (applySetters referenceDate (rev (sort_key priority setters)))))"

section \<open>Configuration and files\<close>

record KeyMapping =
  mappingId :: string
  fieldA :: string
  fieldB :: string

record NormalizationRules =
  trimWhitespace :: bool
  removeLeadingZerosA :: bool
  removeLeadingZerosFieldsA :: "string list"
  normalizeDatesA :: bool
  dateFieldsA :: "string list"
  removeLeadingZerosB :: bool
  removeLeadingZerosFieldsB :: "string list"
  normalizeDatesB :: bool
  dateFieldsB :: "string list"

record ComparisonConfig =
  keyMappings :: "KeyMapping list"
  rules :: NormalizationRules

text \<open>
  A row is a plain object, as the decoder makes it: its own properties in creation
  order. \<open>row[header]\<close> is the own property of that name; without one it is the member
  of \<open>Object.prototype\<close> of that name, and \<open>undefined\<close> when there is none. The
  rows of a file are declared \<open>any[]\<close>: a row that is \<open>null\<close> or \<open>undefined\<close> has no
  properties to read, and \<open>row[header]\<close> throws a TypeError. The array of the rows
  is dense, as the decoder makes it: \<open>forEach\<close> visits every index below its length.

  \<open>Object.prototype\<close> has the accessor \<open>__proto__\<close>, which reads as
  \<open>Object.prototype\<close> itself, and eleven functions; \<open>String\<close> prints a built-in
  function as \<open>function name() { [native code] }\<close> (the text of V8, the engine of the
  browsers and of Node that the application targets).
\<close>

type_synonym properties = "(string \<times> jsval) list"

datatype row = Nullish | PlainObject properties

type_synonym normalizedRow = "(string \<times> string) list"

definition nativeFunction :: "string \<Rightarrow> jsval" where
  "nativeFunction f = JObject (Inr (''function '' @ f @ ''() { [native code] }''))"

definition objectPrototype :: "string \<Rightarrow> jsval" where
  "objectPrototype k =
     (if k = ''__proto__'' then JObject (Inr ''[object Object]'')
      else if k = ''constructor'' then nativeFunction ''Object''
      else if k \<in> set [''__defineGetter__'', ''__defineSetter__'', ''hasOwnProperty'',
                         ''__lookupGetter__'', ''__lookupSetter__'', ''isPrototypeOf'',
                         ''propertyIsEnumerable'', ''toString'', ''valueOf'', ''toLocaleString'']
      then nativeFunction k
      else JUndefined)"

fun getProp :: "row \<Rightarrow> string \<Rightarrow> error + jsval" where
  "getProp Nullish header = Inl (TypeError ''Cannot read properties of null'')"
| "getProp (PlainObject ps) header =
     Inr (case map_of ps header of None \<Rightarrow> objectPrototype header | Some v \<Rightarrow> v)"

record CsvFile =
  name :: string
  data :: "row list"
  headers :: "string list"
  byteSize :: nat

section \<open>\<open>normalizeValue\<close>\<close>

definition dateFormats :: "string list" where
  "dateFormats =
     [''d/M/yyyy'', ''dd/MM/yyyy'', ''d-M-yyyy'', ''dd-MM-yyyy'', ''yyyy-MM-dd'',
      ''yyyy-MM-dd'T'HH:mm:ss'', ''M/d/yyyy'', ''MM/dd/yyyy'',
      ''d-MMM-yy'', ''dd-MMM-yy'', ''d-MMM-yyyy'', ''dd-MMM-yyyy'']"

text \<open>
  The loop over the formats: the first format that parses to a valid date with a year
  above 1900 and below 2100 gives \<open>parsedDate\<close>; \<open>None\<close> is \<open>null\<close>.
\<close>

fun probeFormats :: "env \<Rightarrow> string \<Rightarrow> string list \<Rightarrow> error + Date option" where
  "probeFormats e valStr [] = Inr None"
| "probeFormats e valStr (fmt # fmts) =
     (case parse valStr fmt (now e) of
        Inl err \<Rightarrow> Inl err
      | Inr d \<Rightarrow>
          (case d of
             None \<Rightarrow> probeFormats e valStr fmts
           | Some dt \<Rightarrow>
               (let year = fullYear dt
                in if year > 1900 \<and> year < 2100 then Inr (Some d)
                   else probeFormats e valStr fmts)))"

text \<open>The body of \<open>if (shouldNormalizeDate) { ... }\<close>, on the value so far.\<close>

definition normalizeDate :: "env \<Rightarrow> string \<Rightarrow> error + string" where
  "normalizeDate e valStr0 =
     (let valStr = (if isDayMonthAbbrevYear valStr0
                    then capitalizeWords False (toLowerCase valStr0) else valStr0);
          simpleDate = nativeDate e valStr;
          found = (if isValid simpleDate \<and> CHR ''-'' \<in> set valStr \<and> length valStr \<ge> 10 \<and>
                      isIsoDate valStr
                   then Inr (Some simpleDate)
                   else probeFormats e valStr dateFormats)
      in case found of
           Inl err \<Rightarrow> Inl err
         | Inr None \<Rightarrow> Inr valStr
         | Inr (Some parsedDate) \<Rightarrow>
             if isValid parsedDate then format_yyyy_MM_dd parsedDate else Inr valStr)"

definition normalizeValue :: "env \<Rightarrow> jsval \<Rightarrow> string \<Rightarrow> ComparisonConfig \<Rightarrow> bool \<Rightarrow> error + string" where
  "normalizeValue e v fieldName cfg isSourceA =
     (case String_js (js_or v (JStr [])) of
        Inl err \<Rightarrow> Inl err
      | Inr str \<Rightarrow>
          (let valStr = trim str;
               valStr = (if trimWhitespace (rules cfg) then removeWhitespace valStr else valStr);
               valStr =
                 (if isSourceA then
                    (if removeLeadingZerosA (rules cfg) \<and>
                        fieldName \<in> set (removeLeadingZerosFieldsA (rules cfg))
                     then removeLeadingZeros valStr else valStr)
                  else
                    (if removeLeadingZerosB (rules cfg) \<and>
                        fieldName \<in> set (removeLeadingZerosFieldsB (rules cfg))
                     then removeLeadingZeros valStr else valStr));
               shouldNormalizeDate =
                 (if isSourceA
                  then normalizeDatesA (rules cfg) \<and> fieldName \<in> set (dateFieldsA (rules cfg))
                  else normalizeDatesB (rules cfg) \<and> fieldName \<in> set (dateFieldsB (rules cfg)))
           in if shouldNormalizeDate then normalizeDate e valStr else Inr valStr))"

section \<open>\<open>getNormalizedRow\<close> and the signature\<close>

text \<open>
  \<open>headers.forEach\<close>: each header's normalized value is stored under the header; a
  header that occurs again overwrites the value in place. The assignment
  \<open>normalized["__proto__"] = v\<close> goes to the accessor of \<open>Object.prototype\<close>, which
  ignores a string, so that header gets no property. A throw of \<open>row[header]\<close> or of
  \<open>normalizeValue\<close> ends the loop.
\<close>

fun normalizeFields ::
  "env \<Rightarrow> row \<Rightarrow> string list \<Rightarrow> ComparisonConfig \<Rightarrow> bool \<Rightarrow> normalizedRow \<Rightarrow> error + normalizedRow" where
  "normalizeFields e r [] cfg isSourceA normalized = Inr normalized"
| "normalizeFields e r (header # hs) cfg isSourceA normalized =
     (case getProp r header of
        Inl err \<Rightarrow> Inl err
      | Inr value \<Rightarrow>
          (case normalizeValue e value header cfg isSourceA of
             Inl err \<Rightarrow> Inl err
           | Inr v \<Rightarrow>
               normalizeFields e r hs cfg isSourceA
                 (if header = ''__proto__'' then normalized
                  else AList.update header v normalized)))"

definition getNormalizedRow ::
  "env \<Rightarrow> row \<Rightarrow> string list \<Rightarrow> ComparisonConfig \<Rightarrow> bool \<Rightarrow> error + normalizedRow" where
  "getNormalizedRow e r hs cfg isSourceA = normalizeFields e r hs cfg isSourceA []"

text \<open>
  \<open>JSON.stringify\<close> of an object whose values are strings. The properties are listed
  with the array indices first, in ascending order, then the other names in creation
  order; a string is quoted with its quotes, backslashes and control characters escaped.
\<close>

definition isArrayIndex :: "string \<Rightarrow> bool" where
  "isArrayIndex k =
     (k = ''0'' \<or> (k \<noteq> [] \<and> list_all is_digit k \<and> hd k \<noteq> CHR ''0'' \<and> int (parseInt k) < 4294967295))"

definition ownProperties :: "normalizedRow \<Rightarrow> normalizedRow" where
  "ownProperties obj =
     sort_key (\<lambda>p. parseInt (fst p)) (filter (\<lambda>p. isArrayIndex (fst p)) obj) @
     filter (\<lambda>p. \<not> isArrayIndex (fst p)) obj"

definition jsonEscapes :: "(char \<times> string) list" where
  "jsonEscapes =
     [(CHR 0x22, [CHR 0x5C, CHR 0x22]), (CHR 0x5C, [CHR 0x5C, CHR 0x5C]),
      (CHR 0x00, CHR 0x5C # ''u0000''), (CHR 0x01, CHR 0x5C # ''u0001''),
      (CHR 0x02, CHR 0x5C # ''u0002''), (CHR 0x03, CHR 0x5C # ''u0003''),
      (CHR 0x04, CHR 0x5C # ''u0004''), (CHR 0x05, CHR 0x5C # ''u0005''),
      (CHR 0x06, CHR 0x5C # ''u0006''), (CHR 0x07, CHR 0x5C # ''u0007''),
      (CHR 0x08, [CHR 0x5C, CHR ''b'']), (CHR 0x09, [CHR 0x5C, CHR ''t'']),
      (CHR 0x0A, [CHR 0x5C, CHR ''n'']), (CHR 0x0B, CHR 0x5C # ''u000b''),
      (CHR 0x0C, [CHR 0x5C, CHR ''f'']), (CHR 0x0D, [CHR 0x5C, CHR ''r'']),
      (CHR 0x0E, CHR 0x5C # ''u000e''), (CHR 0x0F, CHR 0x5C # ''u000f''),
      (CHR 0x10, CHR 0x5C # ''u0010''), (CHR 0x11, CHR 0x5C # ''u0011''),
      (CHR 0x12, CHR 0x5C # ''u0012''), (CHR 0x13, CHR 0x5C # ''u0013''),
      (CHR 0x14, CHR 0x5C # ''u0014''), (CHR 0x15, CHR 0x5C # ''u0015''),
      (CHR 0x16, CHR 0x5C # ''u0016''), (CHR 0x17, CHR 0x5C # ''u0017''),
      (CHR 0x18, CHR 0x5C # ''u0018''), (CHR 0x19, CHR 0x5C # ''u0019''),
      (CHR 0x1A, CHR 0x5C # ''u001a''), (CHR 0x1B, CHR 0x5C # ''u001b''),
      (CHR 0x1C, CHR 0x5C # ''u001c''), (CHR 0x1D, CHR 0x5C # ''u001d''),
      (CHR 0x1E, CHR 0x5C # ''u001e''), (CHR 0x1F, CHR 0x5C # ''u001f'')]"

definition quoteJSONString :: "string \<Rightarrow> string" where
  "quoteJSONString s =
     CHR 0x22 # concat (map (\<lambda>c. case map_of jsonEscapes c of Some esc \<Rightarrow> esc | None \<Rightarrow> [c]) s) @
     [CHR 0x22]"

text \<open>\<open>parts.join(sep)\<close>\<close>

fun join :: "string \<Rightarrow> string list \<Rightarrow> string" where
  "join sep [] = []"
| "join sep [x] = x"
| "join sep (x # y # ys) = x @ sep @ join sep (y # ys)"

definition JSON_stringify :: "normalizedRow \<Rightarrow> string" where
  "JSON_stringify obj =
     ''{'' @ join '','' (map (\<lambda>p. quoteJSONString (fst p) @ '':'' @ quoteJSONString (snd p))
                             (ownProperties obj)) @ ''}''"

section \<open>\<open>processSource\<close>\<close>

text \<open>
  A log entry as \<open>addLog\<close> receives it: the level and the message. (The application
  adds a random id and the time of the call.)
\<close>

datatype level = Info | Warning | Error | Success

record LogEntry =
  level :: level
  message :: string

text \<open>\<open>String(n)\<close> for an integer.\<close>

definition showInt :: "int \<Rightarrow> string" where
  "showInt i = (if i < 0 then ''-'' @ digits_of (nat (- i)) else digits_of (nat i))"

record ProcessedSource =
  validUniqueRows :: "normalizedRow list"
  duplicatesCount :: int
  keyToRowsMap :: "(string \<times> normalizedRow list) list"
  allKeys :: "string list"

text \<open>
  A \<open>Map\<close> is the list of its entries and a \<open>Set\<close> the list of its elements, both in
  insertion order: \<open>map.has(k)\<close> is \<open>map_of m k \<noteq> None\<close>, \<open>map.set(k, v)\<close> is
  \<open>AList.update k v m\<close>, which replaces the value of a key in place and puts a new key
  last.
\<close>

definition setAdd :: "string list \<Rightarrow> string \<Rightarrow> string list" where
  "setAdd s k = (if k \<in> set s then s else s @ [k])"

text \<open>
  The first loop of \<open>processSource\<close>, over \<open>file.data\<close>: the row is normalized and
  kept under its signature unless the signature is there already; a row whose
  normalization throws is skipped by the \<open>catch\<close>.
\<close>

fun dedupeRows ::
  "env \<Rightarrow> row list \<Rightarrow> string list \<Rightarrow> ComparisonConfig \<Rightarrow> bool \<Rightarrow>
   (string \<times> normalizedRow) list \<Rightarrow> (string \<times> normalizedRow) list" where
  "dedupeRows e [] hs cfg isSourceA uniqueRowsMap = uniqueRowsMap"
| "dedupeRows e (r # rs) hs cfg isSourceA uniqueRowsMap =
     (case getNormalizedRow e r hs cfg isSourceA of
        Inl err \<Rightarrow> dedupeRows e rs hs cfg isSourceA uniqueRowsMap
      | Inr normalizedRow \<Rightarrow>
          (let signature = JSON_stringify normalizedRow
           in if map_of uniqueRowsMap signature = None
              then dedupeRows e rs hs cfg isSourceA (AList.update signature normalizedRow uniqueRowsMap)
              else dedupeRows e rs hs cfg isSourceA uniqueRowsMap))"

text \<open>
  The key of a row: \<open>keyParts\<close> holds \<open>row[fieldName]\<close> for each mapping, and \<open>join\<close>
  prints the parts. A part is the normalized string of the field; \<open>None\<close> is
  \<open>undefined\<close>, for a field that is no header, which \<open>join\<close> prints as the empty
  string; for a field that the row does not have and \<open>Object.prototype\<close> does, the
  part is held as the string that \<open>join\<close> prints for that member.
\<close>

definition inheritedPart :: "string \<Rightarrow> string option" where
  "inheritedPart fieldName =
     (case objectPrototype fieldName of JObject (Inr s) \<Rightarrow> Some s | _ \<Rightarrow> None)"

definition normalizedProp :: "normalizedRow \<Rightarrow> string \<Rightarrow> string option" where
  "normalizedProp r fieldName =
     (case map_of r fieldName of Some s \<Rightarrow> Some s | None \<Rightarrow> inheritedPart fieldName)"

definition keyParts :: "ComparisonConfig \<Rightarrow> bool \<Rightarrow> normalizedRow \<Rightarrow> string option list" where
  "keyParts cfg isSourceA r =
     map (\<lambda>mapping. normalizedProp r (if isSourceA then fieldA mapping else fieldB mapping))
         (keyMappings cfg)"

definition elementString :: "string option \<Rightarrow> string" where
  "elementString x = (case x of None \<Rightarrow> [] | Some s \<Rightarrow> s)"

definition rowKey :: "ComparisonConfig \<Rightarrow> bool \<Rightarrow> normalizedRow \<Rightarrow> string" where
  "rowKey cfg isSourceA r = join ''|'' (map elementString (keyParts cfg isSourceA r))"

text \<open>
  The second loop, over \<open>validUniqueRows\<close>: the key joins \<open>allKeys\<close>, and the row is
  pushed on the list that \<open>keyToRowsMap\<close> holds for the key (a new, empty list when the
  key is new).
\<close>

fun indexRows ::
  "ComparisonConfig \<Rightarrow> bool \<Rightarrow> normalizedRow list \<Rightarrow>
   (string \<times> normalizedRow list) list \<times> string list \<Rightarrow>
   (string \<times> normalizedRow list) list \<times> string list" where
  "indexRows cfg isSourceA [] (m, ks) = (m, ks)"
| "indexRows cfg isSourceA (r # rs) (m, ks) =
     (let key = rowKey cfg isSourceA r;
          rows = (case map_of m key of None \<Rightarrow> [] | Some rows \<Rightarrow> rows)
      in indexRows cfg isSourceA rs (AList.update key (rows @ [r]) m, setAdd ks key))"

definition processSource :: "env \<Rightarrow> CsvFile \<Rightarrow> ComparisonConfig \<Rightarrow> bool \<Rightarrow> ProcessedSource" where
  "processSource e file cfg isSourceA =
     (let uniqueRowsMap = dedupeRows e (data file) (headers file) cfg isSourceA [];
          uniqueRows = map snd uniqueRowsMap;
          indexed = indexRows cfg isSourceA uniqueRows ([], [])
      in \<lparr>validUniqueRows = uniqueRows,
          duplicatesCount = int (length (data file)) - int (length uniqueRows),
          keyToRowsMap = fst indexed,
          allKeys = snd indexed\<rparr>)"

definition sourceLabel :: "bool \<Rightarrow> string" where
  "sourceLabel isSourceA = (if isSourceA then ''Source A'' else ''Source B'')"

definition processSourceLog :: "env \<Rightarrow> CsvFile \<Rightarrow> ComparisonConfig \<Rightarrow> bool \<Rightarrow> LogEntry list" where
  "processSourceLog e file cfg isSourceA =
     (let n = duplicatesCount (processSource e file cfg isSourceA)
      in \<lparr>level = Info,
           message = ''Processing '' @ sourceLabel isSourceA @ '': '' @ name file @ '' ('' @
                     showInt (int (length (data file))) @ '' rows)...''\<rparr> #
         (if n > 0
          then [\<lparr>level = Info,
                  message = sourceLabel isSourceA @ '': Removed '' @ showInt n @ '' duplicate rows.''\<rparr>]
          else []))"

section \<open>\<open>runComparison\<close>\<close>

record ComparisonStats =
  totalA :: int
  totalB :: int
  validUniqueA :: int
  validUniqueB :: int
  duplicatesA :: int
  duplicatesB :: int
  missingInB :: int
  missingInA :: int
  matched :: int

record DuplicateEntry =
  row :: normalizedRow
  count :: int

text \<open>
  The declared type of the result. \<open>duplicatedRowsA\<close> and \<open>duplicatedRowsB\<close> are
  optional here because an object may lack the property: \<open>None\<close> is \<open>undefined\<close>.
\<close>

record ComparisonResult =
  stats :: ComparisonStats
  rowsMissingInB :: "normalizedRow list"
  rowsMissingInA :: "normalizedRow list"
  duplicatedRowsA :: "DuplicateEntry list option"
  duplicatedRowsB :: "DuplicateEntry list option"
  timestamp :: string
  sourceAName :: string
  sourceBName :: string

text \<open>Keys of one source that the other source does not have, in first-seen order.\<close>

definition missingKeys :: "ProcessedSource \<Rightarrow> ProcessedSource \<Rightarrow> string list" where
  "missingKeys procX procY = filter (\<lambda>key. key \<notin> set (allKeys procY)) (allKeys procX)"

text \<open>All rows that \<open>keyToRowsMap\<close> holds for the given keys.\<close>

definition rowsForKeys :: "ProcessedSource \<Rightarrow> string list \<Rightarrow> normalizedRow list" where
  "rowsForKeys proc keys =
     concat (map (\<lambda>key. case map_of (keyToRowsMap proc) key of None \<Rightarrow> [] | Some rows \<Rightarrow> rows) keys)"

text \<open>
  The object that \<open>runComparison\<close> returns. Its literal names no \<open>duplicatedRowsA\<close>
  and no \<open>duplicatedRowsB\<close>.
\<close>

definition runComparison :: "env \<Rightarrow> CsvFile \<Rightarrow> CsvFile \<Rightarrow> ComparisonConfig \<Rightarrow> ComparisonResult" where
  "runComparison e fileA fileB cfg =
     (let procA = processSource e fileA cfg True;
          procB = processSource e fileB cfg False;
          missingKeysInB = missingKeys procA procB;
          missingKeysInA = missingKeys procB procA;
          rowsB = rowsForKeys procA missingKeysInB;
          rowsA = rowsForKeys procB missingKeysInA;
          matchedKeysCount = int (length (allKeys procA)) - int (length missingKeysInB)
      in \<lparr>stats =
            \<lparr>totalA = int (length (data fileA)),
             totalB = int (length (data fileB)),
             validUniqueA = int (length (validUniqueRows procA)),
             validUniqueB = int (length (validUniqueRows procB)),
             duplicatesA = duplicatesCount procA,
             duplicatesB = duplicatesCount procB,
             missingInB = int (length rowsB),
             missingInA = int (length rowsA),
             matched = matchedKeysCount\<rparr>,
          rowsMissingInB = rowsB,
          rowsMissingInA = rowsA,
          duplicatedRowsA = None,
          duplicatedRowsB = None,
          timestamp = isoNow e,
          sourceAName = name fileA,
          sourceBName = name fileB\<rparr>)"

text \<open>The messages that \<open>runComparison\<close> hands to \<open>addLog\<close>, in order.\<close>

definition onOff :: "bool \<Rightarrow> string" where
  "onOff b = (if b then ''ON'' else ''OFF'')"

definition runComparisonLog :: "env \<Rightarrow> CsvFile \<Rightarrow> CsvFile \<Rightarrow> ComparisonConfig \<Rightarrow> LogEntry list" where
  "runComparisonLog e fileA fileB cfg =
     (let res = runComparison e fileA fileB cfg
      in [\<lparr>level = Info, message = ''Starting reconciliation process...''\<rparr>,
          \<lparr>level = Info,
           message = ''Config Active: Remove Zeros A=['' @ onOff (removeLeadingZerosA (rules cfg)) @
                     ''], B=['' @ onOff (removeLeadingZerosB (rules cfg)) @ '']''\<rparr>] @
         processSourceLog e fileA cfg True @
         processSourceLog e fileB cfg False @
         [\<lparr>level = Info, message = ''Comparing keys...''\<rparr>,
          \<lparr>level = Success, message = ''Comparison completed in '' @ duration e @ ''s.''\<rparr>,
          \<lparr>level = Info,
           message = ''Found '' @ showInt (int (length (rowsMissingInB res))) @
                     '' rows in Source A missing from B.''\<rparr>,
          \<lparr>level = Info,
           message = ''Found '' @ showInt (int (length (rowsMissingInA res))) @
                     '' rows in Source B missing from A.''\<rparr>])"

section \<open>\<open>handleRun\<close>\<close>

text \<open>
  The state of the application that \<open>handleRun\<close> reads and writes. The model gives the
  state once the timer that \<open>handleRun\<close> starts has fired, with the configuration
  unchanged in between. \<open>runComparison\<close> as modelled does not throw, so the \<open>catch\<close>
  around its call has no branch here.
\<close>

record AppState =
  fileA :: "CsvFile option"
  fileB :: "CsvFile option"
  config :: ComparisonConfig
  logs :: "LogEntry list"
  isProcessing :: bool
  isLoading :: bool
  result :: "ComparisonResult option"

definition addLog :: "level \<Rightarrow> string \<Rightarrow> AppState \<Rightarrow> AppState" where
  "addLog l msg st = st\<lparr>logs := logs st @ [\<lparr>level = l, message = msg\<rparr>]\<rparr>"

definition handleRun :: "env \<Rightarrow> AppState \<Rightarrow> AppState" where
  "handleRun e st =
     (case (fileA st, fileB st) of
        (Some a, Some b) \<Rightarrow>
          if keyMappings (config st) = []
          then addLog Error ''At least one key mapping is required.'' st
          else st\<lparr>logs := \<lparr>level = Info, message = ''Initializing comparison engine...''\<rparr> #
                            runComparisonLog e a b (config st),
                  result := Some (runComparison e a b (config st)),
                  isProcessing := False,
                  isLoading := False\<rparr>
      | _ \<Rightarrow> addLog Error ''Both source files must be loaded.'' st)"

section \<open>Example inputs\<close>

text \<open>
  An engine for the examples, after V8. \<open>new Date(s)\<close> for a string of the form
  YYYY-MM-DD with a month from 01 to 12 and a day from 01 to 31 is midnight UTC of that
  day, and a day that the month lacks rolls over into the next month (30 February 2025
  is 2 March); any other month or day gives the Invalid Date. Read in a time zone
  behind UTC, midnight UTC falls on the day before. \<open>normalizeValue\<close> consults
  \<open>new Date(s)\<close> only for strings of that form, so the example engine gives the Invalid
  Date on every other string.
\<close>

definition daysInMonth :: "int \<Rightarrow> nat \<Rightarrow> nat" where
  "daysInMonth year m =
     (if isLeapYearIndex year then DAYS_IN_MONTH_LEAP_YEAR ! m else DAYS_IN_MONTH ! m)"

definition previousDay :: "jsdate \<Rightarrow> jsdate" where
  "previousDay d =
     (if dayOfMonth d > 1 then d\<lparr>dayOfMonth := dayOfMonth d - 1\<rparr>
      else if monthIndex d > 0
      then d\<lparr>monthIndex := monthIndex d - 1,
              dayOfMonth := daysInMonth (fullYear d) (monthIndex d - 1)\<rparr>
      else \<lparr>fullYear = fullYear d - 1, monthIndex = 11, dayOfMonth = 31\<rparr>)"

definition engineDate :: "int \<Rightarrow> string \<Rightarrow> Date" where
  "engineDate utcOffsetMinutes s =
     (if isIsoDate s then
        (let y = int (parseInt (take 4 s));
             m = parseInt (take 2 (drop 5 s));
             d = parseInt (drop 8 s)
         in if 1 \<le> m \<and> m \<le> 12 \<and> 1 \<le> d \<and> d \<le> 31
            then (let utcDay =
                        (if d \<le> daysInMonth y (m - 1)
                         then \<lparr>fullYear = y, monthIndex = m - 1, dayOfMonth = d\<rparr>
                         else \<lparr>fullYear = y, monthIndex = m, dayOfMonth = d - daysInMonth y (m - 1)\<rparr>)
                  in Some (if utcOffsetMinutes < 0 then previousDay utcDay else utcDay))
            else None)
      else None)"

text \<open>A run on 15 June 2025, one hour ahead of UTC.\<close>

definition exampleEnv :: env where
  "exampleEnv =
     \<lparr>now = \<lparr>fullYear = 2025, monthIndex = 5, dayOfMonth = 15\<rparr>,
      nativeDate = engineDate 60,
      isoNow = ''2025-06-15T10:00:00.000Z'',
      duration = ''0.01''\<rparr>"

text \<open>The rules that the application starts with.\<close>

definition defaultRules :: NormalizationRules where
  "defaultRules =
     \<lparr>trimWhitespace = True,
      removeLeadingZerosA = True,
      removeLeadingZerosFieldsA = [''DOC_NUMBER''],
      normalizeDatesA = True,
      dateFieldsA = [],
      removeLeadingZerosB = True,
      removeLeadingZerosFieldsB = [],
      normalizeDatesB = True,
      dateFieldsB = []\<rparr>"

text \<open>Source A holds the same row twice.\<close>

definition idMapping :: KeyMapping where
  "idMapping = \<lparr>mappingId = ''k1'', fieldA = ''ID'', fieldB = ''ID''\<rparr>"

definition idConfig :: ComparisonConfig where
  "idConfig = \<lparr>keyMappings = [idMapping], rules = defaultRules\<rparr>"

definition twiceFile :: CsvFile where
  "twiceFile =
     \<lparr>name = ''a.csv'',
      data = [PlainObject [(''ID'', JStr ''1'')], PlainObject [(''ID'', JStr ''1'')],
              PlainObject [(''ID'', JStr ''2'')]],
      headers = [''ID''],
      byteSize = 9\<rparr>"

definition onceFile :: CsvFile where
  "onceFile =
     \<lparr>name = ''b.csv'', data = [PlainObject [(''ID'', JStr ''1'')]], headers = [''ID''], byteSize = 5\<rparr>"

text \<open>The configuration that the application starts with: no key mapping yet.\<close>

definition initialConfig :: ComparisonConfig where
  "initialConfig = \<lparr>keyMappings = [], rules = defaultRules\<rparr>"

text \<open>Both files are loaded and no key mapping has been added.\<close>

definition loadedState :: AppState where
  "loadedState =
     \<lparr>fileA = Some twiceFile, fileB = Some onceFile, config = initialConfig, logs = [],
      isProcessing = False, isLoading = False, result = None\<rparr>"

text \<open>
  Two key mappings, and one row in each source: the region of the row in A holds the
  separator, the code of the row in B holds it.
\<close>

definition pipeConfig :: ComparisonConfig where
  "pipeConfig =
     \<lparr>keyMappings =
        [\<lparr>mappingId = ''k1'', fieldA = ''REGION'', fieldB = ''AREA''\<rparr>,
         \<lparr>mappingId = ''k2'', fieldA = ''CODE'', fieldB = ''ITEM''\<rparr>],
      rules = defaultRules\<rparr>"

definition pipeFileA :: CsvFile where
  "pipeFileA =
     \<lparr>name = ''a.csv'',
      data = [PlainObject [(''REGION'', JStr ''a|b''), (''CODE'', JStr ''c'')]],
      headers = [''REGION'', ''CODE''],
      byteSize = 18\<rparr>"

definition pipeFileB :: CsvFile where
  "pipeFileB =
     \<lparr>name = ''b.csv'',
      data = [PlainObject [(''AREA'', JStr ''a''), (''ITEM'', JStr ''b|c'')]],
      headers = [''AREA'', ''ITEM''],
      byteSize = 16\<rparr>"

text \<open>
  White space is kept, and leading zeros are removed from the ID of source A.
\<close>

definition keepSpaceConfig :: ComparisonConfig where
  "keepSpaceConfig =
     \<lparr>keyMappings = [idMapping],
      rules = defaultRules\<lparr>trimWhitespace := False, removeLeadingZerosFieldsA := [''ID'']\<rparr>\<rparr>"

text \<open>The field DATE is the key of both sources and a date field of both.\<close>

definition dateConfig :: ComparisonConfig where
  "dateConfig =
     \<lparr>keyMappings = [\<lparr>mappingId = ''k1'', fieldA = ''DATE'', fieldB = ''DATE''\<rparr>],
      rules = defaultRules\<lparr>dateFieldsA := [''DATE''], dateFieldsB := [''DATE'']\<rparr>\<rparr>"

text \<open>The same run on a machine five hours behind UTC.\<close>

definition westEnv :: env where
  "westEnv = exampleEnv\<lparr>nativeDate := engineDate (- 300)\<rparr>"

text \<open>The same run on 15 June 2076.\<close>

definition lateEnv :: env where
  "lateEnv = exampleEnv\<lparr>now := \<lparr>fullYear = 2076, monthIndex = 5, dayOfMonth = 15\<rparr>\<rparr>"

text \<open>One day, written as an ISO date in source A and with a month name in source B.\<close>

definition isoDateFile :: CsvFile where
  "isoDateFile =
     \<lparr>name = ''a.csv'', data = [PlainObject [(''DATE'', JStr ''2025-12-03'')]], headers = [''DATE''],
      byteSize = 16\<rparr>"

definition abbrevDateFile :: CsvFile where
  "abbrevDateFile =
     \<lparr>name = ''b.csv'', data = [PlainObject [(''DATE'', JStr ''3-DEC-25'')]], headers = [''DATE''],
      byteSize = 14\<rparr>"

text \<open>
  A source whose first row holds, under ID, an object without \<open>toString\<close> (such as
  \<open>Object.create(null)\<close>), on which \<open>String\<close> throws.
\<close>

definition bareObject :: jsval where
  "bareObject = JObject (Inl (TypeError ''Cannot convert object to primitive value''))"

definition brokenFile :: CsvFile where
  "brokenFile =
     \<lparr>name = ''a.csv'', data = [PlainObject [(''ID'', bareObject)], PlainObject [(''ID'', JStr ''1'')]],
      headers = [''ID''], byteSize = 0\<rparr>"

text \<open>The day of the two date files once more, written with slashes and a four-digit year.\<close>

definition slashDateFile :: CsvFile where
  "slashDateFile =
     \<lparr>name = ''c.csv'', data = [PlainObject [(''DATE'', JStr ''03/12/2025'')]], headers = [''DATE''],
      byteSize = 16\<rparr>"

text \<open>A run on 2 January 2026, five hours behind UTC.\<close>

definition nextYearEnv :: env where
  "nextYearEnv =
     \<lparr>now = \<lparr>fullYear = 2026, monthIndex = 0, dayOfMonth = 2\<rparr>,
      nativeDate = engineDate (- 300),
      isoNow = ''2026-01-02T15:00:00.000Z'',
      duration = ''0.03''\<rparr>"

section \<open>Auxiliary notions\<close>

text \<open>The unit tokens that \<open>runParser\<close> models.\<close>

definition unitTokens :: "string list" where
  "unitTokens = [''yy'', ''yyyy'', ''M'', ''MM'', ''MMM'', ''d'', ''dd'', ''HH'', ''mm'', ''ss'']"

text \<open>
  A token list on which the loop of \<open>parse\<close> cannot throw: every unit token is one of
  the modelled ones and its letter is new, every other token starts with no letter.
\<close>

fun tokensAccepted :: "string list \<Rightarrow> string \<Rightarrow> bool" where
  "tokensAccepted [] usedTokens = True"
| "tokensAccepted (token # tokens) usedTokens =
     (if hd token \<in> set parserLetters
      then hd token \<notin> set usedTokens \<and> token \<in> set unitTokens \<and>
           tokensAccepted tokens (hd token # usedTokens)
      else \<not> is_alpha (hd token) \<and> tokensAccepted tokens usedTokens)"

text \<open>A format string on which \<open>parse\<close> cannot throw.\<close>

definition formatAccepted :: "string \<Rightarrow> bool" where
  "formatAccepted fmt = (formatTokens fmt \<noteq> [] \<and> tokensAccepted (formatTokens fmt) [])"

text \<open>The signature that the first loop of \<open>processSource\<close> computes for a row, or the throw.\<close>

definition rowSignature :: "env \<Rightarrow> string list \<Rightarrow> ComparisonConfig \<Rightarrow> bool \<Rightarrow> row \<Rightarrow> error + string" where
  "rowSignature e hs cfg isSourceA r =
     (case getNormalizedRow e r hs cfg isSourceA of
        Inl err \<Rightarrow> Inl err
      | Inr n \<Rightarrow> Inr (JSON_stringify n))"

text \<open>The rows that the \<open>catch\<close> of the first loop skips.\<close>

definition skippedRows :: "env \<Rightarrow> CsvFile \<Rightarrow> ComparisonConfig \<Rightarrow> bool \<Rightarrow> row list" where
  "skippedRows e file cfg isSourceA =
     filter (\<lambda>r. case getNormalizedRow e r (headers file) cfg isSourceA of
                   Inl err \<Rightarrow> True | Inr n \<Rightarrow> False) (data file)"

text \<open>A second source with the IDs 1 and 3.\<close>

definition otherFile :: CsvFile where
  "otherFile =
     \<lparr>name = ''c.csv'', data = [PlainObject [(''ID'', JStr ''1'')], PlainObject [(''ID'', JStr ''3'')]],
      headers = [''ID''], byteSize = 7\<rparr>"

text \<open>Normalizing the result of \<open>normalizeValue\<close> once more, for the same field and side.\<close>

definition normalizeAgain :: "env \<Rightarrow> jsval \<Rightarrow> string \<Rightarrow> ComparisonConfig \<Rightarrow> bool \<Rightarrow> error + string" where
  "normalizeAgain e v fieldName cfg isSourceA =
     (case normalizeValue e v fieldName cfg isSourceA of
        Inl err \<Rightarrow> Inl err
      | Inr s \<Rightarrow> normalizeValue e (JStr s) fieldName cfg isSourceA)"

text \<open>
  The conditions under which \<open>normalizeValue\<close> normalizes the date of a field
  (\<open>shouldNormalizeDate\<close>) and removes its leading zeros.
\<close>

definition datesApply :: "ComparisonConfig \<Rightarrow> string \<Rightarrow> bool \<Rightarrow> bool" where
  "datesApply cfg fieldName isSourceA =
     (if isSourceA
      then normalizeDatesA (rules cfg) \<and> fieldName \<in> set (dateFieldsA (rules cfg))
      else normalizeDatesB (rules cfg) \<and> fieldName \<in> set (dateFieldsB (rules cfg)))"

definition zerosApply :: "ComparisonConfig \<Rightarrow> string \<Rightarrow> bool \<Rightarrow> bool" where
  "zerosApply cfg fieldName isSourceA =
     (if isSourceA
      then removeLeadingZerosA (rules cfg) \<and> fieldName \<in> set (removeLeadingZerosFieldsA (rules cfg))
      else removeLeadingZerosB (rules cfg) \<and> fieldName \<in> set (removeLeadingZerosFieldsB (rules cfg)))"

text \<open>
  The value of a cell after the first three steps of \<open>normalizeValue\<close> (coercion and
  trimming, removal of white space, removal of leading zeros), as it reaches the date
  step, or the throw of the coercion.
\<close>

definition valueBeforeDates :: "jsval \<Rightarrow> string \<Rightarrow> ComparisonConfig \<Rightarrow> bool \<Rightarrow> error + string" where
  "valueBeforeDates v fieldName cfg isSourceA =
     (case String_js (js_or v (JStr [])) of
        Inl err \<Rightarrow> Inl err
      | Inr str \<Rightarrow>
          Inr ((if zerosApply cfg fieldName isSourceA then removeLeadingZeros else (\<lambda>s. s))
                 ((if trimWhitespace (rules cfg) then removeWhitespace else (\<lambda>s. s)) (trim str))))"

text \<open>The value that the date step probes: re-cased when it matches the day-month-year pattern.\<close>

definition recased :: "string \<Rightarrow> string" where
  "recased s = (if isDayMonthAbbrevYear s then capitalizeWords False (toLowerCase s) else s)"

text \<open>
  The probed value has the form YYYY-MM-DD, so the date step consults \<open>new Date(s)\<close>.
\<close>

definition isoShaped :: "string \<Rightarrow> bool" where
  "isoShaped s = isIsoDate (recased s)"

text \<open>
  The two-digit years that \<open>parse\<close> reads in the probed value: for each format of the
  list whose tokens consume the whole of the value (white space may be left over), the
  years of the setters that carry the flag \<open>isTwoDigitYear\<close>.
\<close>

definition twoDigitYearsOf :: "setter list \<Rightarrow> nat list" where
  "twoDigitYearsOf setters =
     concat (map (\<lambda>st. case st of SetYear y t \<Rightarrow> (if t then [y] else []) | _ \<Rightarrow> []) setters)"

definition twoDigitYears :: "string \<Rightarrow> nat list" where
  "twoDigitYears s =
     concat (map (\<lambda>fmt. case parseLoop (formatTokens fmt) [] (recased s) [] of
                          Inr (Some (setters, rest)) \<Rightarrow>
                            if list_ex (\<lambda>c. \<not> is_space c) rest then []
                            else twoDigitYearsOf setters
                        | _ \<Rightarrow> [])
                 dateFormats)"

text \<open>
  What two runs have to share for the value of a date cell: the value is not of the form
  YYYY-MM-DD, and each two-digit year read in it is resolved to the same full year in
  both runs (as it is when the runs fall in the same calendar year). A file meets the
  condition when every cell of a date field does, as it reaches the date step.
\<close>

definition cellStable :: "env \<Rightarrow> env \<Rightarrow> string \<Rightarrow> bool" where
  "cellStable e e' s =
     (\<not> isoShaped s \<and>
      list_all (\<lambda>y. normalizeTwoDigitYear (int y) (fullYear (now e)) =
                     normalizeTwoDigitYear (int y) (fullYear (now e')))
               (twoDigitYears s))"

definition fileStable :: "env \<Rightarrow> env \<Rightarrow> ComparisonConfig \<Rightarrow> bool \<Rightarrow> CsvFile \<Rightarrow> bool" where
  "fileStable e e' cfg isSourceA file =
     (\<forall>r \<in> set (data file). \<forall>h \<in> set (headers file).
        datesApply cfg h isSourceA \<longrightarrow>
        (case getProp r h of
           Inl err \<Rightarrow> True
         | Inr v \<Rightarrow>
             (case valueBeforeDates v h cfg isSourceA of
                Inl err \<Rightarrow> True
              | Inr s \<Rightarrow> cellStable e e' s)))"

text \<open>
  A cell on which \<open>String(value || "")\<close> does not throw, and a row on which
  \<open>row[header]\<close> does not throw and gives a cell of that kind, for each of the given
  headers.
\<close>

definition convertible :: "jsval \<Rightarrow> bool" where
  "convertible v = (case v of JObject (Inl err) \<Rightarrow> False | _ \<Rightarrow> True)"

definition rowConvertible :: "string list \<Rightarrow> row \<Rightarrow> bool" where
  "rowConvertible hs r =
     list_all (\<lambda>h. case getProp r h of Inl err \<Rightarrow> False | Inr v \<Rightarrow> convertible v) hs"

section \<open>Where normalization throws\<close>

lemma runParser_unit: "token \<in> set unitTokens \<Longrightarrow> \<exists>r. runParser token s = Inr r"
  by (auto simp: unitTokens_def runParser_def withSetter_def)

lemma parseLoop_accepted:
  "tokensAccepted tokens usedTokens \<Longrightarrow> \<exists>r. parseLoop tokens usedTokens s acc = Inr r"
proof (induction tokens arbitrary: usedTokens s acc)
  case Nil
  then show ?case by simp
next
  case (Cons token tokens)
  show ?case
  proof (cases "hd token \<in> set parserLetters")
    case True
    with Cons.prems have u: "hd token \<notin> set usedTokens" "token \<in> set unitTokens"
      and rest: "tokensAccepted tokens (hd token # usedTokens)" by simp_all
    from runParser_unit [OF u(2)] obtain r where r: "runParser token s = Inr r" by blast
    show ?thesis
    proof (cases r)
      case None
      with True u r show ?thesis by simp
    next
      case (Some p)
      obtain st rest' where p: "p = (st, rest')" by (cases p)
      from Cons.IH [OF rest] obtain q where
        "parseLoop tokens (hd token # usedTokens) rest' (acc @ [st]) = Inr q" by blast
      with True u r Some p show ?thesis by simp
    qed
  next
    case False
    with Cons.prems have na: "\<not> is_alpha (hd token)" and rest: "tokensAccepted tokens usedTokens"
      by simp_all
    from Cons.IH [OF rest] show ?thesis using False na by (simp add: Let_def)
  qed
qed

lemma parse_accepted:
  assumes "formatAccepted fmt"
  shows "\<exists>d. parse s fmt ref = Inr d"
proof -
  from assms have t: "formatTokens fmt \<noteq> []" and a: "tokensAccepted (formatTokens fmt) []"
    by (simp_all add: formatAccepted_def)
  from parseLoop_accepted [OF a] obtain r where "parseLoop (formatTokens fmt) [] s [] = Inr r"
    by blast
  with t show ?thesis by (auto simp: parse_def split: option.splits)
qed

lemma dateFormats_accepted: "list_all formatAccepted dateFormats"
  by code_simp

lemma probeFormats_total:
  "list_all formatAccepted fmts \<Longrightarrow>
   \<exists>r. probeFormats e s fmts = Inr r \<and> (r = None \<or> (\<exists>dt. r = Some (Some dt)))"
proof (induction fmts)
  case Nil
  then show ?case by simp
next
  case (Cons fmt fmts)
  then have a: "formatAccepted fmt"
    and IH: "\<exists>r. probeFormats e s fmts = Inr r \<and> (r = None \<or> (\<exists>dt. r = Some (Some dt)))"
    by simp_all
  from parse_accepted [OF a] obtain d where d: "parse s fmt (now e) = Inr d" by blast
  show ?case using d IH by (cases d) (auto simp: Let_def)
qed

lemma format_valid: "\<exists>s. format_yyyy_MM_dd (Some dt) = Inr s"
  by (simp add: format_yyyy_MM_dd_def Let_def)

lemma normalizeDate_total: "\<exists>s'. normalizeDate e s = Inr s'"
proof -
  define valStr where "valStr = (if isDayMonthAbbrevYear s then capitalizeWords False (toLowerCase s) else s)"
  from probeFormats_total [OF dateFormats_accepted, of e valStr]
  obtain r where r: "probeFormats e valStr dateFormats = Inr r" "r = None \<or> (\<exists>dt. r = Some (Some dt))"
    by blast
  show ?thesis
    unfolding normalizeDate_def Let_def valStr_def [symmetric]
    using r format_valid by (auto simp: isValid_def split: option.splits)
qed

lemma String_js_returns:
  "(\<exists>s. String_js (js_or v (JStr [])) = Inr s) = convertible v"
proof (cases v)
  case (JObject x)
  then show ?thesis by (cases x) (simp_all add: js_or_def convertible_def)
qed (simp_all add: js_or_def convertible_def)

lemma normalizeValue_returns:
  "(\<exists>s. normalizeValue e v fieldName cfg isSourceA = Inr s) = convertible v"
proof (cases "String_js (js_or v (JStr []))")
  case (Inl err)
  then have "normalizeValue e v fieldName cfg isSourceA = Inl err"
    by (simp add: normalizeValue_def)
  moreover from Inl have "\<not> convertible v" using String_js_returns [of v] by simp
  ultimately show ?thesis by simp
next
  case (Inr str)
  then have "\<exists>s. normalizeValue e v fieldName cfg isSourceA = Inr s"
    unfolding normalizeValue_def Let_def using normalizeDate_total by simp
  moreover from Inr have "convertible v" using String_js_returns [of v] by simp
  ultimately show ?thesis by simp
qed

lemma normalizeFields_returns:
  "(\<exists>n. normalizeFields e r hs cfg isSourceA acc = Inr n) = rowConvertible hs r"
proof (induction hs arbitrary: acc)
  case Nil
  then show ?case by (simp add: rowConvertible_def)
next
  case (Cons h hs)
  show ?case
  proof (cases "getProp r h")
    case (Inl err)
    then show ?thesis by (simp add: rowConvertible_def)
  next
    case (Inr v)
    show ?thesis
    proof (cases "normalizeValue e v h cfg isSourceA")
      case err: (Inl err)
      then have "\<not> convertible v" using normalizeValue_returns [of e v h cfg isSourceA] by simp
      with Inr err show ?thesis by (simp add: rowConvertible_def)
    next
      case s: (Inr s)
      then have "convertible v" using normalizeValue_returns [of e v h cfg isSourceA] by auto
      with Inr s Cons [of "if h = ''__proto__'' then acc else AList.update h s acc"]
      show ?thesis by (simp add: rowConvertible_def)
    qed
  qed
qed

lemma normalizeFields_properties:
  "normalizeFields e r hs cfg isSourceA acc = Inr n \<Longrightarrow>
   fst ` set n = fst ` set acc \<union> (set hs - {''__proto__''})"
proof (induction hs arbitrary: acc)
  case Nil
  then show ?case by simp
next
  case (Cons h hs)
  from Cons.prems obtain v s where v: "getProp r h = Inr v"
    and s: "normalizeValue e v h cfg isSourceA = Inr s"
    and n: "normalizeFields e r hs cfg isSourceA
              (if h = ''__proto__'' then acc else AList.update h s acc) = Inr n"
    by (auto split: sum.splits)
  from Cons.IH [OF n] show ?case by (auto simp: AList.dom_update)
qed

lemma getNormalizedRow_returns:
  "(\<exists>n. getNormalizedRow e r hs cfg isSourceA = Inr n) = rowConvertible hs r"
  by (simp add: getNormalizedRow_def normalizeFields_returns)

lemma getNormalizedRow_properties:
  "getNormalizedRow e r hs cfg isSourceA = Inr n \<Longrightarrow> fst ` set n = set hs - {''__proto__''}"
  using normalizeFields_properties [of e r hs cfg isSourceA "[]" n]
  by (simp add: getNormalizedRow_def)

section \<open>Facts about \<open>processSource\<close>\<close>

lemma dedupeRows_keys:
  "distinct (map fst m) \<Longrightarrow>
   distinct (map fst (dedupeRows e rs hs cfg isSourceA m)) \<and>
   Inr ` fst ` set (dedupeRows e rs hs cfg isSourceA m) =
     Inr ` fst ` set m \<union> rowSignature e hs cfg isSourceA ` set (filter (rowConvertible hs) rs)"
proof (induction rs arbitrary: m)
  case Nil
  then show ?case by simp
next
  case (Cons r rs)
  show ?case
  proof (cases "getNormalizedRow e r hs cfg isSourceA")
    case (Inl err)
    then have "\<not> rowConvertible hs r"
      using getNormalizedRow_returns [of e r hs cfg isSourceA] by simp
    with Inl Cons.IH [OF Cons.prems] show ?thesis by simp
  next
    case (Inr n)
    then have c: "rowConvertible hs r"
      using getNormalizedRow_returns [of e r hs cfg isSourceA] by auto
    from Inr have sig: "rowSignature e hs cfg isSourceA r = Inr (JSON_stringify n)"
      by (simp add: rowSignature_def)
    show ?thesis
    proof (cases "map_of m (JSON_stringify n) = None")
      case True
      have d: "distinct (map fst (AList.update (JSON_stringify n) n m))"
        using Cons.prems by (rule AList.distinct_update)
      from Cons.IH [OF d] show ?thesis
        using Inr c sig True
        by (simp add: Let_def AList.dom_update image_Un insert_commute Un_commute Un_left_commute)
    next
      case False
      then have "JSON_stringify n \<in> fst ` set m" by (simp add: map_of_eq_None_iff)
      then have "Inr ` fst ` set m \<union>
                   rowSignature e hs cfg isSourceA ` set (filter (rowConvertible hs) (r # rs)) =
                 Inr ` fst ` set m \<union>
                   rowSignature e hs cfg isSourceA ` set (filter (rowConvertible hs) rs)"
        using sig c by auto
      moreover from False obtain y where "map_of m (JSON_stringify n) = Some y" by blast
      ultimately show ?thesis using Cons.IH [OF Cons.prems] Inr by (simp add: Let_def)
    qed
  qed
qed

lemma validUniqueRows_length:
  "length (validUniqueRows (processSource e file cfg isSourceA)) =
   card (rowSignature e (headers file) cfg isSourceA `
           set (filter (rowConvertible (headers file)) (data file)))"
proof -
  let ?m = "dedupeRows e (data file) (headers file) cfg isSourceA []"
  from dedupeRows_keys [of "[]" e "data file" "headers file" cfg isSourceA]
  have d: "distinct (map fst ?m)"
    and s: "Inr ` fst ` set ?m =
            rowSignature e (headers file) cfg isSourceA `
              set (filter (rowConvertible (headers file)) (data file))"
    by simp_all
  have "length ?m = card (fst ` set ?m)" using distinct_card [OF d] by simp
  also have "\<dots> = card ((Inr :: string \<Rightarrow> error + string) ` fst ` set ?m)"
    by (simp add: card_image)
  finally show ?thesis using s by (simp add: processSource_def Let_def)
qed

lemma setAdd_set: "set (setAdd ks k) = insert k (set ks)"
  by (auto simp: setAdd_def)

lemma setAdd_distinct: "distinct ks \<Longrightarrow> distinct (setAdd ks k)"
  by (simp add: setAdd_def)

lemma indexRows_keys:
  "set (snd (indexRows cfg isSourceA rs (m, ks))) = set ks \<union> rowKey cfg isSourceA ` set rs"
  by (induction rs arbitrary: m ks) (auto simp: Let_def setAdd_set)

lemma indexRows_distinct:
  "distinct ks \<Longrightarrow> distinct (snd (indexRows cfg isSourceA rs (m, ks)))"
  by (induction rs arbitrary: m ks) (auto simp: Let_def setAdd_distinct)

lemma indexRows_map:
  "map_of (fst (indexRows cfg isSourceA rs (m, ks))) k =
     (if filter (\<lambda>r. rowKey cfg isSourceA r = k) rs = [] then map_of m k
      else Some ((case map_of m k of None \<Rightarrow> [] | Some x \<Rightarrow> x) @
                 filter (\<lambda>r. rowKey cfg isSourceA r = k) rs))"
  by (induction rs arbitrary: m ks) (auto simp: Let_def AList.update_conv' split: option.splits)

lemma allKeys_set:
  "set (allKeys (processSource e file cfg isSourceA)) =
   rowKey cfg isSourceA ` set (validUniqueRows (processSource e file cfg isSourceA))"
  by (simp add: processSource_def Let_def indexRows_keys)

lemma allKeys_distinct: "distinct (allKeys (processSource e file cfg isSourceA))"
  by (simp add: processSource_def Let_def indexRows_distinct)

lemma keyToRowsMap_lookup:
  "map_of (keyToRowsMap (processSource e file cfg isSourceA)) k =
     (if k \<in> set (allKeys (processSource e file cfg isSourceA))
      then Some (filter (\<lambda>r. rowKey cfg isSourceA r = k)
                   (validUniqueRows (processSource e file cfg isSourceA)))
      else None)"
proof -
  have "(filter (\<lambda>r. rowKey cfg isSourceA r = k) rs = []) = (k \<notin> rowKey cfg isSourceA ` set rs)" for rs
    by (auto simp: filter_empty_conv)
  then show ?thesis
    by (simp add: processSource_def Let_def indexRows_map indexRows_keys)
qed

lemma rowsForKeys_set:
  "set (rowsForKeys (processSource e file cfg isSourceA) keys) =
   {r \<in> set (validUniqueRows (processSource e file cfg isSourceA)). rowKey cfg isSourceA r \<in> set keys}"
  by (auto simp: rowsForKeys_def keyToRowsMap_lookup allKeys_set split: if_splits)

lemma missingKeys_set:
  "set (missingKeys procX procY) = set (allKeys procX) - set (allKeys procY)"
  by (auto simp: missingKeys_def)

lemma skippedRows_filter:
  "skippedRows e file cfg isSourceA =
   filter (\<lambda>r. \<not> rowConvertible (headers file) r) (data file)"
proof -
  have "(case getNormalizedRow e r (headers file) cfg isSourceA of
           Inl err \<Rightarrow> True | Inr n \<Rightarrow> False) = (\<not> rowConvertible (headers file) r)" for r
    using getNormalizedRow_returns [of e r "headers file" cfg isSourceA]
    by (cases "getNormalizedRow e r (headers file) cfg isSourceA") auto
  then show ?thesis by (simp add: skippedRows_def)
qed

lemma update_new: "k \<notin> fst ` set al \<Longrightarrow> AList.update k v al = al @ [(k, v)]"
  by (induction al) auto

lemma dedupeRows_entries:
  "\<forall>p\<in>set m. fst p = JSON_stringify (snd p) \<Longrightarrow>
   \<forall>p\<in>set (dedupeRows e rs hs cfg isSourceA m). fst p = JSON_stringify (snd p)"
proof (induction rs arbitrary: m)
  case Nil
  then show ?case by simp
next
  case (Cons r rs)
  show ?case
  proof (cases "getNormalizedRow e r hs cfg isSourceA")
    case (Inl err)
    with Cons show ?thesis by simp
  next
    case (Inr n)
    show ?thesis
    proof (cases "map_of m (JSON_stringify n) = None")
      case True
      then have "AList.update (JSON_stringify n) n m = m @ [(JSON_stringify n, n)]"
        by (simp add: update_new map_of_eq_None_iff)
      with Cons.prems have "\<forall>p\<in>set (AList.update (JSON_stringify n) n m). fst p = JSON_stringify (snd p)"
        by simp
      from Cons.IH [OF this] show ?thesis using Inr True by (simp add: Let_def)
    next
      case False
      then obtain y where "map_of m (JSON_stringify n) = Some y" by blast
      with Cons.IH [OF Cons.prems] show ?thesis using Inr by (simp add: Let_def)
    qed
  qed
qed

lemma validUniqueRows_signatures:
  "rowSignature e (headers file) cfg isSourceA `
     set (filter (rowConvertible (headers file)) (data file)) =
   Inr ` JSON_stringify ` set (validUniqueRows (processSource e file cfg isSourceA))"
proof -
  let ?m = "dedupeRows e (data file) (headers file) cfg isSourceA []"
  have "\<forall>p\<in>set ?m. fst p = JSON_stringify (snd p)"
    by (rule dedupeRows_entries) simp
  then have "fst ` set ?m = JSON_stringify ` snd ` set ?m" by force
  moreover have "Inr ` fst ` set ?m =
      rowSignature e (headers file) cfg isSourceA `
        set (filter (rowConvertible (headers file)) (data file))"
    using dedupeRows_keys [of "[]" e "data file" "headers file" cfg isSourceA] by simp
  ultimately show ?thesis by (simp add: processSource_def Let_def)
qed

lemma missing_rows_set:
  "set (rowsForKeys (processSource e f cfg a)
          (missingKeys (processSource e f cfg a) (processSource e g cfg b))) =
   {r \<in> set (validUniqueRows (processSource e f cfg a)).
      rowKey cfg a r \<notin> set (allKeys (processSource e g cfg b))}"
  by (auto simp: rowsForKeys_set missingKeys_set allKeys_set)

lemma missing_key_rows:
  assumes "k \<in> set (missingKeys (processSource e f cfg a) (processSource e g cfg b))"
  shows "\<exists>rows. map_of (keyToRowsMap (processSource e f cfg a)) k = Some rows \<and> rows \<noteq> [] \<and>
           rows = filter (\<lambda>r. rowKey cfg a r = k) (validUniqueRows (processSource e f cfg a)) \<and>
           set rows \<subseteq> set (rowsForKeys (processSource e f cfg a)
                              (missingKeys (processSource e f cfg a) (processSource e g cfg b)))"
proof -
  let ?rows = "filter (\<lambda>r. rowKey cfg a r = k) (validUniqueRows (processSource e f cfg a))"
  from assms have kA: "k \<in> set (allKeys (processSource e f cfg a))"
    and kB: "k \<notin> set (allKeys (processSource e g cfg b))"
    by (simp_all add: missingKeys_set)
  from kA have "map_of (keyToRowsMap (processSource e f cfg a)) k = Some ?rows"
    by (simp add: keyToRowsMap_lookup)
  moreover from kA have "?rows \<noteq> []"
    by (auto simp: allKeys_set filter_empty_conv)
  moreover from kB have "set ?rows \<subseteq> set (rowsForKeys (processSource e f cfg a)
                              (missingKeys (processSource e f cfg a) (processSource e g cfg b)))"
    unfolding missing_rows_set by auto
  ultimately show ?thesis by blast
qed

section \<open>Facts about trimming\<close>

lemma String_js_or_JStr: "String_js (js_or (JStr s) (JStr [])) = Inr s"
  by (simp add: js_or_def)

lemma trim_ends: "trim s \<noteq> [] \<Longrightarrow> \<not> is_space (hd (trim s)) \<and> \<not> is_space (last (trim s))"
proof -
  let ?u = "dropWhile is_space s"
  let ?w = "dropWhile is_space (rev ?u)"
  assume "trim s \<noteq> []"
  then have w: "?w \<noteq> []" by (simp add: trim_def del: dropWhile_eq_Nil_conv)
  have u: "?u \<noteq> []"
  proof
    assume "?u = []"
    then have "?w = []" by (simp only: rev.simps dropWhile.simps)
    with w show False by blast
  qed
  have "\<not> is_space (hd ?w)" using w by (rule hd_dropWhile)
  then have l: "\<not> is_space (last (rev ?w))" using w by (simp add: last_rev)
  have "rev ?u = takeWhile is_space (rev ?u) @ ?w" by simp
  then have "last (rev ?u) = last ?w" using w by (metis last_appendR)
  then have "hd ?u = last ?w" using u by (simp add: last_rev)
  moreover have "\<not> is_space (hd ?u)" using u by (rule hd_dropWhile)
  ultimately have "\<not> is_space (hd (rev ?w))" using w by (simp add: hd_rev)
  with l show ?thesis by (simp add: trim_def)
qed

lemma trim_fixed: "s = [] \<or> (\<not> is_space (hd s) \<and> \<not> is_space (last s)) \<Longrightarrow> trim s = s"
proof (cases "s = []")
  case True
  then show ?thesis by (simp add: trim_def)
next
  case False
  assume "s = [] \<or> (\<not> is_space (hd s) \<and> \<not> is_space (last s))"
  with False have h: "\<not> is_space (hd s)" and l: "\<not> is_space (last s)" by simp_all
  from h have "dropWhile is_space s = s" by (simp add: dropWhile_eq_self_iff)
  moreover from l False have "dropWhile is_space (rev s) = rev s"
    by (simp add: dropWhile_eq_self_iff hd_rev)
  ultimately show ?thesis by (simp add: trim_def)
qed

lemma trim_trim: "trim (trim s) = trim s"
  using trim_ends [of s] by (intro trim_fixed) blast

lemma trim_no_space: "\<forall>c\<in>set s. \<not> is_space c \<Longrightarrow> trim s = s"
  by (rule trim_fixed) (cases s, auto)

lemma removeWhitespace_no_space: "\<forall>c\<in>set s. \<not> is_space c \<Longrightarrow> removeWhitespace s = s"
  by (simp add: removeWhitespace_def)

lemma removeLeadingZeros_idem: "removeLeadingZeros (removeLeadingZeros s) = removeLeadingZeros s"
  by (simp add: removeLeadingZeros_def)

lemma removeLeadingZeros_no_space:
  "\<forall>c\<in>set s. \<not> is_space c \<Longrightarrow> \<forall>c\<in>set (removeLeadingZeros s). \<not> is_space c"
  by (auto simp: removeLeadingZeros_def dest: set_dropWhileD)

lemma removeWhitespace_clean: "\<forall>c\<in>set (removeWhitespace s). \<not> is_space c"
  by (simp add: removeWhitespace_def)

lemma normalizeValue_plain:
  "\<not> datesApply cfg fieldName isSourceA \<Longrightarrow> String_js (js_or x (JStr [])) = Inr str \<Longrightarrow>
   normalizeValue e x fieldName cfg isSourceA =
     Inr ((if zerosApply cfg fieldName isSourceA then removeLeadingZeros else (\<lambda>s. s))
            ((if trimWhitespace (rules cfg) then removeWhitespace else (\<lambda>s. s)) (trim str)))"
  by (simp add: normalizeValue_def Let_def datesApply_def zerosApply_def)

lemma clean_again:
  assumes "\<forall>c\<in>set s. \<not> is_space c"
  shows "removeWhitespace (trim s) = s"
  using assms by (simp add: trim_no_space removeWhitespace_no_space)

section \<open>The value 3-DEC-25\<close>

lemma century:
  "100 * q \<le> (x::int) \<Longrightarrow> x < 100 * q + 100 \<Longrightarrow> x div 100 = q \<and> x mod 100 = x - 100 * q"
proof -
  assume a: "100 * q \<le> x" "x < 100 * q + 100"
  have "x = 100 * q + (x - 100 * q)" by simp
  moreover have "0 \<le> x - 100 * q" "x - 100 * q < 100" using a by simp_all
  ultimately show ?thesis by (metis int_div_pos_eq int_mod_pos_eq)
qed

lemma normalizeTwoDigitYear_25:
  assumes "1976 \<le> y" "y \<le> 2075"
  shows "normalizeTwoDigitYear 25 y = 2025"
proof (cases "y < 2050")
  case True
  with assms have "(y + 50) div 100 = 20 \<and> (y + 50) mod 100 = (y + 50) - 100 * 20"
    by (intro century) simp_all
  with assms True show ?thesis by (simp add: normalizeTwoDigitYear_def Let_def)
next
  case False
  with assms have "(y + 50) div 100 = 21 \<and> (y + 50) mod 100 = (y + 50) - 100 * 21"
    by (intro century) simp_all
  with assms False show ?thesis by (simp add: normalizeTwoDigitYear_def Let_def)
qed

lemma applySetters_3_Dec_25:
  assumes "1976 \<le> fullYear ref" "fullYear ref \<le> 2075"
  shows "applySetters ref [SetYear 25 True, SetMonth 11, SetDate 3] =
         Some \<lparr>fullYear = 2025, monthIndex = 11, dayOfMonth = 3\<rparr>"
  using normalizeTwoDigitYear_25 [OF assms]
  by (simp add: isLeapYearIndex_def DAYS_IN_MONTH_def)

lemma probeFormats_skip:
  "parse s fmt (now e) = Inr None \<Longrightarrow> probeFormats e s (fmt # fmts) = probeFormats e s fmts"
  by simp

lemma parse_3_Dec_25_fails:
  "parse ''3-Dec-25'' ''d/M/yyyy'' ref = Inr None"
  "parse ''3-Dec-25'' ''dd/MM/yyyy'' ref = Inr None"
  "parse ''3-Dec-25'' ''d-M-yyyy'' ref = Inr None"
  "parse ''3-Dec-25'' ''dd-MM-yyyy'' ref = Inr None"
  "parse ''3-Dec-25'' ''yyyy-MM-dd'' ref = Inr None"
  "parse ''3-Dec-25'' ''yyyy-MM-dd'T'HH:mm:ss'' ref = Inr None"
  "parse ''3-Dec-25'' ''M/d/yyyy'' ref = Inr None"
  "parse ''3-Dec-25'' ''MM/dd/yyyy'' ref = Inr None"
  by code_simp+

lemma parse_3_Dec_25_setters:
  "parse ''3-Dec-25'' ''d-MMM-yy'' ref =
   Inr (applySetters ref [SetYear 25 True, SetMonth 11, SetDate 3])"
  by code_simp

lemma recase_3_DEC_25:
  "isDayMonthAbbrevYear ''3-DEC-25''"
  "capitalizeWords False (toLowerCase ''3-DEC-25'') = ''3-Dec-25''"
  "\<not> isIsoDate ''3-Dec-25''"
  "String_js (js_or (JStr ''3-DEC-25'') (JStr [])) = Inr ''3-DEC-25''"
  "trim ''3-DEC-25'' = ''3-DEC-25''"
  "removeWhitespace ''3-DEC-25'' = ''3-DEC-25''"
  "removeLeadingZeros ''3-DEC-25'' = ''3-DEC-25''"
  "format_yyyy_MM_dd (Some \<lparr>fullYear = 2025, monthIndex = 11, dayOfMonth = 3\<rparr>) = Inr ''2025-12-03''"
  by code_simp+

lemma probeFormats_3_Dec_25:
  assumes "1976 \<le> fullYear (now e)" "fullYear (now e) \<le> 2075"
  shows "probeFormats e ''3-Dec-25'' (take 8 dateFormats) = Inr None"
    and "parse ''3-Dec-25'' (dateFormats ! 8) (now e) =
           Inr (Some \<lparr>fullYear = 2025, monthIndex = 11, dayOfMonth = 3\<rparr>)"
    and "probeFormats e ''3-Dec-25'' dateFormats =
           Inr (Some (Some \<lparr>fullYear = 2025, monthIndex = 11, dayOfMonth = 3\<rparr>))"
proof -
  show "probeFormats e ''3-Dec-25'' (take 8 dateFormats) = Inr None"
    by (simp add: dateFormats_def parse_3_Dec_25_fails del: probeFormats.simps(2) add: probeFormats_skip)
  have "parse ''3-Dec-25'' (dateFormats ! 8) (now e) = parse ''3-Dec-25'' ''d-MMM-yy'' (now e)"
    by (simp add: dateFormats_def)
  also have "\<dots> = Inr (applySetters (now e) [SetYear 25 True, SetMonth 11, SetDate 3])"
    by (rule parse_3_Dec_25_setters)
  also have "\<dots> = Inr (Some \<lparr>fullYear = 2025, monthIndex = 11, dayOfMonth = 3\<rparr>)"
    by (simp only: applySetters_3_Dec_25 [OF assms])
  finally show p: "parse ''3-Dec-25'' (dateFormats ! 8) (now e) =
           Inr (Some \<lparr>fullYear = 2025, monthIndex = 11, dayOfMonth = 3\<rparr>)" .
  have "probeFormats e ''3-Dec-25'' dateFormats =
        probeFormats e ''3-Dec-25'' [''d-MMM-yy'', ''dd-MMM-yy'', ''d-MMM-yyyy'', ''dd-MMM-yyyy'']"
    by (simp add: dateFormats_def parse_3_Dec_25_fails del: probeFormats.simps(2) add: probeFormats_skip)
  also have "\<dots> = Inr (Some (Some \<lparr>fullYear = 2025, monthIndex = 11, dayOfMonth = 3\<rparr>))"
    using p by (simp add: dateFormats_def)
  finally show "probeFormats e ''3-Dec-25'' dateFormats =
           Inr (Some (Some \<lparr>fullYear = 2025, monthIndex = 11, dayOfMonth = 3\<rparr>))" .
qed

section \<open>What a run takes from its surroundings\<close>

lemma parseLoop_step:
  "parseLoop (token # tokens) used s acc = Inr (Some (setters, rest)) \<Longrightarrow>
   \<exists>used' s' acc'.
     parseLoop tokens used' s' acc' = Inr (Some (setters, rest)) \<and> set acc \<subseteq> set acc' \<and>
     (hd token \<in> set parserLetters \<longrightarrow>
        (\<exists>st. runParser token s = Inr (Some (st, s')) \<and> acc' = acc @ [st]))"
  by (auto simp: Let_def split: if_splits sum.splits option.splits)

lemma parseLoop_keeps:
  "parseLoop tokens used s acc = Inr (Some (setters, rest)) \<Longrightarrow> set acc \<subseteq> set setters"
proof (induction tokens arbitrary: used s acc)
  case Nil
  then show ?case by simp
next
  case (Cons token tokens)
  from parseLoop_step [OF Cons.prems] obtain used' s' acc' where
    "parseLoop tokens used' s' acc' = Inr (Some (setters, rest))" "set acc \<subseteq> set acc'"
    by blast
  with Cons.IH show ?case by blast
qed

lemma runParser_year:
  "token = ''yy'' \<or> token = ''yyyy'' \<Longrightarrow> runParser token s = Inr (Some (st, r)) \<Longrightarrow>
   \<exists>y t. st = SetYear y t"
  by (fastforce simp: runParser_def withSetter_def)

lemma parseLoop_year:
  "parseLoop tokens used s acc = Inr (Some (setters, rest)) \<Longrightarrow>
   ''yy'' \<in> set tokens \<or> ''yyyy'' \<in> set tokens \<Longrightarrow> \<exists>y t. SetYear y t \<in> set setters"
proof (induction tokens arbitrary: used s acc)
  case Nil
  then show ?case by simp
next
  case (Cons token tokens)
  from parseLoop_step [OF Cons.prems(1)] obtain used' s' acc' where
    l: "parseLoop tokens used' s' acc' = Inr (Some (setters, rest))"
    and p: "hd token \<in> set parserLetters \<longrightarrow>
            (\<exists>st. runParser token s = Inr (Some (st, s')) \<and> acc' = acc @ [st])"
    by blast
  show ?case
  proof (cases "token = ''yy'' \<or> token = ''yyyy''")
    case True
    then have "hd token \<in> set parserLetters" by (auto simp: parserLetters_def)
    with p obtain st where st: "runParser token s = Inr (Some (st, s'))" "acc' = acc @ [st]"
      by blast
    from runParser_year [OF True st(1)] obtain y t where "st = SetYear y t" by blast
    with st(2) parseLoop_keeps [OF l] show ?thesis by auto
  next
    case False
    with Cons.prems(2) have "''yy'' \<in> set tokens \<or> ''yyyy'' \<in> set tokens" by auto
    from Cons.IH [OF l this] show ?thesis .
  qed
qed

lemma sorted_last_greatest: "sorted xs \<Longrightarrow> (x::nat) \<in> set xs \<Longrightarrow> x \<le> last xs"
  by (induction xs) auto

lemma priority_le: "priority st \<le> 130"
  by (cases st) simp_all

lemma priority_year: "priority st = 130 \<Longrightarrow> \<exists>y t. st = SetYear y t"
  by (cases st) simp_all

lemma year_first:
  assumes "SetYear y t \<in> set setters"
  shows "\<exists>y' t' sts. rev (sort_key priority setters) = SetYear y' t' # sts \<and>
                      SetYear y' t' \<in> set setters"
proof -
  let ?ys = "sort_key priority setters"
  from assms have m: "SetYear y t \<in> set ?ys" by simp
  have "length ?ys = length setters" by simp
  moreover from assms have "setters \<noteq> []" by auto
  ultimately have ne: "?ys \<noteq> []" by (metis length_0_conv)
  have "sorted (map priority ?ys)" by (rule sorted_sort_key)
  moreover have "priority (SetYear y t) \<in> set (map priority ?ys)"
    unfolding set_map using m by (rule imageI)
  ultimately have "priority (SetYear y t) \<le> last (map priority ?ys)" by (rule sorted_last_greatest)
  then have "130 \<le> priority (last ?ys)" using ne by (simp add: last_map)
  with priority_le [of "last ?ys"] have "priority (last ?ys) = 130" by simp
  then obtain y' t' where l: "last ?ys = SetYear y' t'" using priority_year by blast
  have "rev ?ys = last ?ys # rev (butlast ?ys)"
    using ne by (metis append_butlast_last_id rev.simps(2) rev_append rev_rev_ident append_Cons append_Nil)
  then have r: "rev ?ys = SetYear y' t' # rev (butlast ?ys)" by (simp only: l)
  have "last ?ys \<in> set setters" using ne last_in_set [of ?ys] by simp
  then have "SetYear y' t' \<in> set setters" by (simp only: l)
  with r show ?thesis by blast
qed

lemma applySetters_year:
  "(t \<longrightarrow> normalizeTwoDigitYear (int y) (fullYear ref) =
           normalizeTwoDigitYear (int y) (fullYear ref')) \<Longrightarrow>
   applySetters ref (SetYear y t # sts) = applySetters ref' (SetYear y t # sts)"
  by (cases t) simp_all

lemma twoDigitYearsOf_member:
  "SetYear y True \<in> set setters \<Longrightarrow> y \<in> set (twoDigitYearsOf setters)"
  by (force simp: twoDigitYearsOf_def)

lemma dateFormats_year:
  "list_all (\<lambda>fmt. fmt \<noteq> [] \<and> (''yy'' \<in> set (formatTokens fmt) \<or> ''yyyy'' \<in> set (formatTokens fmt)))
     dateFormats"
  by code_simp

lemma parse_stable:
  assumes fmt: "fmt \<in> set dateFormats"
    and st: "list_all (\<lambda>y. normalizeTwoDigitYear (int y) (fullYear ref) =
                           normalizeTwoDigitYear (int y) (fullYear ref'))
               (twoDigitYears s)"
  shows "parse (recased s) fmt ref = parse (recased s) fmt ref'"
proof -
  from fmt dateFormats_year
  have y: "''yy'' \<in> set (formatTokens fmt) \<or> ''yyyy'' \<in> set (formatTokens fmt)"
    and "fmt \<noteq> []"
    by (auto simp: list_all_iff)
  then have ne: "fmt \<noteq> []" "formatTokens fmt \<noteq> []" by auto
  show ?thesis
proof (cases "parseLoop (formatTokens fmt) [] (recased s) []")
  case (Inl err)
  then show ?thesis using ne by (simp add: parse_def)
next
  case (Inr res)
  show ?thesis
  proof (cases res)
    case None
    with Inr show ?thesis using ne by (simp add: parse_def)
  next
    case (Some p)
    obtain setters rest where p: "p = (setters, rest)" by (cases p)
    note l = Inr [unfolded Some p]
    show ?thesis
    proof (cases "list_ex (\<lambda>c. \<not> is_space c) rest")
      case True
      with l show ?thesis using ne by (simp add: parse_def)
    next
      case False
      from parseLoop_year [OF l y] obtain y0 t0 where "SetYear y0 t0 \<in> set setters" by blast
      from year_first [OF this] obtain y' t' sts where
        r: "rev (sort_key priority setters) = SetYear y' t' # sts"
        and m: "SetYear y' t' \<in> set setters" by blast
      have "set (twoDigitYearsOf setters) \<subseteq> set (twoDigitYears s)"
        using fmt l False by (force simp: twoDigitYears_def)
      with st m have "t' \<longrightarrow> normalizeTwoDigitYear (int y') (fullYear ref) =
                              normalizeTwoDigitYear (int y') (fullYear ref')"
        using twoDigitYearsOf_member [of y' setters] by (auto simp: list_all_iff)
      from applySetters_year [OF this] show ?thesis
        using l False r ne by (simp add: parse_def)
    qed
  qed
qed
qed

lemma probeFormats_stable:
  "\<forall>fmt\<in>set fmts. parse s fmt (now e) = parse s fmt (now e') \<Longrightarrow>
   probeFormats e s fmts = probeFormats e' s fmts"
  by (induction fmts) (simp_all add: Let_def split: sum.splits option.splits)

lemma normalizeDate_stable:
  assumes "cellStable e e' s"
  shows "normalizeDate e s = normalizeDate e' s"
proof -
  from assms have iso: "\<not> isIsoDate (recased s)"
    and y: "list_all (\<lambda>y. normalizeTwoDigitYear (int y) (fullYear (now e)) =
                           normalizeTwoDigitYear (int y) (fullYear (now e')))
              (twoDigitYears s)"
    by (simp_all add: cellStable_def isoShaped_def)
  have "probeFormats e (recased s) dateFormats = probeFormats e' (recased s) dateFormats"
    by (rule probeFormats_stable) (simp add: parse_stable [OF _ y])
  with iso show ?thesis
    unfolding normalizeDate_def Let_def recased_def [symmetric] by simp
qed

lemma normalizeValue_steps:
  "normalizeValue e v fieldName cfg isSourceA =
     (case valueBeforeDates v fieldName cfg isSourceA of
        Inl err \<Rightarrow> Inl err
      | Inr s \<Rightarrow> if datesApply cfg fieldName isSourceA then normalizeDate e s else Inr s)"
  by (simp add: normalizeValue_def valueBeforeDates_def datesApply_def zerosApply_def Let_def
      split: sum.splits)

lemma normalizeValue_stable:
  "datesApply cfg fieldName isSourceA \<longrightarrow>
     (case valueBeforeDates v fieldName cfg isSourceA of
        Inl err \<Rightarrow> True | Inr s \<Rightarrow> cellStable e e' s) \<Longrightarrow>
   normalizeValue e v fieldName cfg isSourceA = normalizeValue e' v fieldName cfg isSourceA"
  by (auto simp: normalizeValue_steps normalizeDate_stable split: sum.splits)

lemma normalizeFields_stable:
  "\<forall>h\<in>set hs. datesApply cfg h isSourceA \<longrightarrow>
     (case getProp r h of
        Inl err \<Rightarrow> True
      | Inr v \<Rightarrow> (case valueBeforeDates v h cfg isSourceA of
                    Inl err \<Rightarrow> True | Inr s \<Rightarrow> cellStable e e' s)) \<Longrightarrow>
   normalizeFields e r hs cfg isSourceA acc = normalizeFields e' r hs cfg isSourceA acc"
proof (induction hs arbitrary: acc)
  case Nil
  then show ?case by simp
next
  case (Cons h hs)
  show ?case
  proof (cases "getProp r h")
    case (Inl err)
    then show ?thesis by simp
  next
    case (Inr v)
    with Cons.prems have "normalizeValue e v h cfg isSourceA = normalizeValue e' v h cfg isSourceA"
      by (intro normalizeValue_stable) simp
    with Inr Cons.IH Cons.prems show ?thesis by (simp split: sum.splits)
  qed
qed

lemma dedupeRows_stable:
  "\<forall>r\<in>set rs. \<forall>h\<in>set hs. datesApply cfg h isSourceA \<longrightarrow>
     (case getProp r h of
        Inl err \<Rightarrow> True
      | Inr v \<Rightarrow> (case valueBeforeDates v h cfg isSourceA of
                    Inl err \<Rightarrow> True | Inr s \<Rightarrow> cellStable e e' s)) \<Longrightarrow>
   dedupeRows e rs hs cfg isSourceA m = dedupeRows e' rs hs cfg isSourceA m"
proof (induction rs arbitrary: m)
  case Nil
  then show ?case by simp
next
  case (Cons r rs)
  then have "getNormalizedRow e r hs cfg isSourceA = getNormalizedRow e' r hs cfg isSourceA"
    unfolding getNormalizedRow_def by (intro normalizeFields_stable) simp
  with Cons show ?case by (simp add: Let_def split: sum.splits)
qed

lemma processSource_stable:
  "fileStable e e' cfg isSourceA file \<Longrightarrow>
   processSource e file cfg isSourceA = processSource e' file cfg isSourceA"
  unfolding fileStable_def processSource_def by (simp add: dedupeRows_stable)

text \<open>Two runs of the same calendar year resolve every two-digit year alike.\<close>

lemma cellStable_same_year:
  "fullYear (now e) = fullYear (now e') \<Longrightarrow> cellStable e e' s = (\<not> isoShaped s)"
  by (simp add: cellStable_def list_all_iff)

text \<open>
  A value of the form YYYY-MM-DD is read through \<open>new Date(s)\<close> as midnight UTC and
  printed in local time. Behind UTC it comes out a day early, and a run no longer
  matches it with the same day written in another way.
\<close>

lemma runComparison_ISO_date_behind_UTC:
  "runComparison exampleEnv isoDateFile abbrevDateFile dateConfig =
     \<lparr>stats =
        \<lparr>totalA = 1, totalB = 1, validUniqueA = 1, validUniqueB = 1, duplicatesA = 0,
         duplicatesB = 0, missingInB = 0, missingInA = 0, matched = 1\<rparr>,
      rowsMissingInB = [], rowsMissingInA = [], duplicatedRowsA = None, duplicatedRowsB = None,
      timestamp = ''2025-06-15T10:00:00.000Z'', sourceAName = ''a.csv'', sourceBName = ''b.csv''\<rparr> \<and>
   runComparison westEnv isoDateFile abbrevDateFile dateConfig =
     \<lparr>stats =
        \<lparr>totalA = 1, totalB = 1, validUniqueA = 1, validUniqueB = 1, duplicatesA = 0,
         duplicatesB = 0, missingInB = 1, missingInA = 1, matched = 0\<rparr>,
      rowsMissingInB = [[(''DATE'', ''2025-12-02'')]],
      rowsMissingInA = [[(''DATE'', ''2025-12-03'')]],
      duplicatedRowsA = None, duplicatedRowsB = None,
      timestamp = ''2025-06-15T10:00:00.000Z'', sourceAName = ''a.csv'', sourceBName = ''b.csv''\<rparr>"
  by code_simp

section \<open>The duplicate report\<close>

text \<open>
  C1. The claim asks that the result of \<open>runComparison\<close> hold \<open>duplicatedRowsA\<close> and
  \<open>duplicatedRowsB\<close>, with a (row, occurrence count) entry for every signature that
  occurred more than once. Source A of the example holds the row with ID 1 twice: the
  run counts one duplicate, and the object it returns has neither list.
\<close>

theorem runComparison_returns_no_duplicate_lists:
  "duplicatesA (stats (runComparison exampleEnv twiceFile onceFile idConfig)) = 1 \<and>
   duplicatedRowsA (runComparison exampleEnv twiceFile onceFile idConfig) = None \<and>
   duplicatedRowsB (runComparison exampleEnv twiceFile onceFile idConfig) = None"
  by code_simp

section \<open>The empty key mapping list\<close>

text \<open>
  C2, as the claim states it: \<open>runComparison\<close> with an empty \<open>keyMappings\<close> list fails
  before any row is processed. It does not: it has no check of its own. On the example
  files and the initial configuration it normalizes and deduplicates the rows, indexes
  all of them under the empty key and returns a complete result.
\<close>

theorem runComparison_empty_keyMappings_counterexample:
  "processSource exampleEnv twiceFile initialConfig True =
     \<lparr>validUniqueRows = [[(''ID'', ''1'')], [(''ID'', ''2'')]],
      duplicatesCount = 1,
      keyToRowsMap = [([], [[(''ID'', ''1'')], [(''ID'', ''2'')]])],
      allKeys = [[]]\<rparr> \<and>
   runComparison exampleEnv twiceFile onceFile initialConfig =
     \<lparr>stats =
        \<lparr>totalA = 3, totalB = 1, validUniqueA = 2, validUniqueB = 1, duplicatesA = 1,
         duplicatesB = 0, missingInB = 0, missingInA = 0, matched = 1\<rparr>,
      rowsMissingInB = [], rowsMissingInA = [], duplicatedRowsA = None, duplicatedRowsB = None,
      timestamp = ''2025-06-15T10:00:00.000Z'', sourceAName = ''a.csv'', sourceBName = ''b.csv''\<rparr>"
  by code_simp

text \<open>
  C2, amended. The check stands in \<open>handleRun\<close>, the caller: with both files loaded and
  an empty \<open>keyMappings\<close> list it appends the one error entry to the log and changes
  nothing else, so \<open>runComparison\<close> is not called and no result is stored.
\<close>

theorem handleRun_rejects_empty_keyMappings:
  "fileA st = Some a \<Longrightarrow> fileB st = Some b \<Longrightarrow> keyMappings (config st) = [] \<Longrightarrow>
   handleRun e st =
     st\<lparr>logs := logs st @ [\<lparr>level = Error, message = ''At least one key mapping is required.''\<rparr>]\<rparr>"
  by (simp add: handleRun_def addLog_def)

theorem handleRun_rejects_empty_keyMappings_witness:
  "fileA loadedState = Some twiceFile \<and> fileB loadedState = Some onceFile \<and>
   keyMappings (config loadedState) = [] \<and>
   handleRun exampleEnv loadedState =
     loadedState\<lparr>logs := [\<lparr>level = Error, message = ''At least one key mapping is required.''\<rparr>]\<rparr>"
  using handleRun_rejects_empty_keyMappings [of loadedState twiceFile onceFile exampleEnv]
  by (simp add: loadedState_def initialConfig_def)

section \<open>The composite key\<close>

text \<open>
  C9. The composite key is not injective on the tuples of key values. The row of A has
  the key values \<open>a|b\<close> and \<open>c\<close>, the row of B has \<open>a\<close> and \<open>b|c\<close>; both are joined
  to the key \<open>a|b|c\<close>, and the run counts them as one matched key with nothing missing.
\<close>

theorem composite_key_collision:
  "validUniqueRows (processSource exampleEnv pipeFileA pipeConfig True) =
     [[(''REGION'', ''a|b''), (''CODE'', ''c'')]] \<and>
   validUniqueRows (processSource exampleEnv pipeFileB pipeConfig False) =
     [[(''AREA'', ''a''), (''ITEM'', ''b|c'')]] \<and>
   keyParts pipeConfig True [(''REGION'', ''a|b''), (''CODE'', ''c'')] = [Some ''a|b'', Some ''c''] \<and>
   keyParts pipeConfig False [(''AREA'', ''a''), (''ITEM'', ''b|c'')] = [Some ''a'', Some ''b|c''] \<and>
   rowKey pipeConfig True [(''REGION'', ''a|b''), (''CODE'', ''c'')] = ''a|b|c'' \<and>
   rowKey pipeConfig False [(''AREA'', ''a''), (''ITEM'', ''b|c'')] = ''a|b|c'' \<and>
   matched (stats (runComparison exampleEnv pipeFileA pipeFileB pipeConfig)) = 1 \<and>
   rowsMissingInB (runComparison exampleEnv pipeFileA pipeFileB pipeConfig) = [] \<and>
   rowsMissingInA (runComparison exampleEnv pipeFileA pipeFileB pipeConfig) = []"
  by code_simp

section \<open>Totality of normalization\<close>

text \<open>
  C10, as the claim states it: \<open>normalizeValue\<close> and \<open>getNormalizedRow\<close> never throw, so
  the \<open>catch\<close> of the first loop of \<open>processSource\<close> is never entered and no row is
  dropped. A cell may hold an object that has no conversion to a string, such as
  \<open>Object.create(null)\<close>: \<open>String(value || "")\<close> throws on it, \<open>normalizeValue\<close> and
  \<open>getNormalizedRow\<close> throw with it, and the row is dropped. The same happens to a row
  that is \<open>null\<close>.
\<close>

theorem normalization_throws_on_bare_object:
  "normalizeValue exampleEnv bareObject ''ID'' idConfig True =
     Inl (TypeError ''Cannot convert object to primitive value'') \<and>
   getNormalizedRow exampleEnv (PlainObject [(''ID'', bareObject)]) [''ID''] idConfig True =
     Inl (TypeError ''Cannot convert object to primitive value'') \<and>
   getNormalizedRow exampleEnv Nullish [''ID''] idConfig True =
     Inl (TypeError ''Cannot read properties of null'') \<and>
   length (data brokenFile) = 2 \<and>
   validUniqueRows (processSource exampleEnv brokenFile idConfig True) = [[(''ID'', ''1'')]]"
  by code_simp

text \<open>
  C10, amended. \<open>normalizeValue\<close> returns a string for every value but an object whose
  conversion to a string throws: for every string, \<open>undefined\<close>, \<open>null\<close>, boolean and
  number, and for every object that \<open>String\<close> converts. \<open>getNormalizedRow\<close> returns for
  exactly the rows whose cells under the headers are all of that kind (a row that is
  \<open>null\<close> or \<open>undefined\<close> only under an empty header list), and its result holds a string
  under each header but \<open>__proto__\<close>. The \<open>catch\<close> skips the other rows and no more,
  and the signatures of the rows that are not skipped are the signatures of the rows
  that are kept.
\<close>

theorem normalization_total_on_convertible:
  "(\<exists>s. normalizeValue e v fieldName cfg isSourceA = Inr s) = (\<forall>err. v \<noteq> JObject (Inl err)) \<and>
   (\<exists>n. getNormalizedRow e r hs cfg isSourceA = Inr n) = rowConvertible hs r \<and>
   (\<forall>n. getNormalizedRow e r hs cfg isSourceA = Inr n \<longrightarrow> fst ` set n = set hs - {''__proto__''}) \<and>
   skippedRows e f cfg isSourceA =
     filter (\<lambda>r. \<not> rowConvertible (headers f) r) (data f) \<and>
   rowSignature e (headers f) cfg isSourceA `
     set (filter (rowConvertible (headers f)) (data f)) =
   Inr ` JSON_stringify ` set (validUniqueRows (processSource e f cfg isSourceA))"
proof (intro conjI)
  have "convertible v = (\<forall>err. v \<noteq> JObject (Inl err))"
    by (auto simp: convertible_def split: jsval.splits sum.splits)
  then show "(\<exists>s. normalizeValue e v fieldName cfg isSourceA = Inr s) =
             (\<forall>err. v \<noteq> JObject (Inl err))"
    by (simp add: normalizeValue_returns)
  show "(\<exists>n. getNormalizedRow e r hs cfg isSourceA = Inr n) = rowConvertible hs r"
    by (rule getNormalizedRow_returns)
  show "\<forall>n. getNormalizedRow e r hs cfg isSourceA = Inr n \<longrightarrow>
            fst ` set n = set hs - {''__proto__''}"
    using getNormalizedRow_properties by blast
  show "skippedRows e f cfg isSourceA =
        filter (\<lambda>r. \<not> rowConvertible (headers f) r) (data f)"
    by (rule skippedRows_filter)
  show "rowSignature e (headers f) cfg isSourceA `
          set (filter (rowConvertible (headers f)) (data f)) =
        Inr ` JSON_stringify ` set (validUniqueRows (processSource e f cfg isSourceA))"
    by (rule validUniqueRows_signatures)
qed

theorem normalization_total_on_convertible_witness:
  "(\<exists>s. normalizeValue exampleEnv (JNumber True ''7'') ''ID'' idConfig True = Inr s) \<and>
   rowConvertible [''ID'', ''__proto__''] (PlainObject [(''ID'', JNull)]) \<and>
   (\<exists>n. getNormalizedRow exampleEnv (PlainObject [(''ID'', JNull)]) [''ID'', ''__proto__''] idConfig True =
          Inr n \<and> fst ` set n = {''ID''}) \<and>
   skippedRows exampleEnv brokenFile idConfig True = [PlainObject [(''ID'', bareObject)]]"
proof -
  have h: "rowConvertible [''ID'', ''__proto__''] (PlainObject [(''ID'', JNull)])"
    "filter (\<lambda>r. \<not> rowConvertible (headers brokenFile) r) (data brokenFile) =
       [PlainObject [(''ID'', bareObject)]]"
    by code_simp+
  show ?thesis
    using h normalization_total_on_convertible
      [where e = exampleEnv and v = "JNumber True ''7''" and fieldName = "''ID''" and cfg = idConfig
         and isSourceA = True and r = "PlainObject [(''ID'', JNull)]" and hs = "[''ID'', ''__proto__'']"
         and f = brokenFile]
    by auto
qed

section \<open>Reconciliation\<close>

text \<open>
  C4. The key partition law: the matched count and the number of keys only in A add up
  to the size of the key set of A, likewise for B, and the matched count is the size of
  the intersection of the two key sets. It holds for every configuration, with or
  without key mappings.
\<close>

theorem key_partition_law:
  "matched (stats (runComparison e fa fb cfg)) +
     int (length (missingKeys (processSource e fa cfg True) (processSource e fb cfg False))) =
   int (card (set (allKeys (processSource e fa cfg True)))) \<and>
   matched (stats (runComparison e fa fb cfg)) +
     int (length (missingKeys (processSource e fb cfg False) (processSource e fa cfg True))) =
   int (card (set (allKeys (processSource e fb cfg False)))) \<and>
   matched (stats (runComparison e fa fb cfg)) =
   int (card (set (allKeys (processSource e fa cfg True)) \<inter>
              set (allKeys (processSource e fb cfg False))))"
proof -
  let ?A = "allKeys (processSource e fa cfg True)"
  let ?B = "allKeys (processSource e fb cfg False)"
  have dA: "distinct ?A" and dB: "distinct ?B" by (rule allKeys_distinct)+
  have m: "matched (stats (runComparison e fa fb cfg)) =
           int (length ?A) - int (length (filter (\<lambda>k. k \<notin> set ?B) ?A))"
    by (simp add: runComparison_def Let_def missingKeys_def)
  have lA: "length ?A = card (set ?A)" and lB: "length ?B = card (set ?B)"
    using dA dB by (simp_all add: distinct_card)
  have fA: "length (filter (\<lambda>k. k \<notin> set ?B) ?A) = card (set ?A - set ?B)"
    using dA by (simp add: distinct_length_filter Diff_eq Int_commute Collect_neg_eq)
  have fB: "length (filter (\<lambda>k. k \<notin> set ?A) ?B) = card (set ?B - set ?A)"
    using dB by (simp add: distinct_length_filter Diff_eq Int_commute Collect_neg_eq)
  have cA: "card (set ?A) = card (set ?A - set ?B) + card (set ?A \<inter> set ?B)"
    by (metis List.finite_set card_Diff_subset_Int add.commute card_mono diff_add_inverse2 finite_Int inf_le1 le_add_diff_inverse2)
  have cB: "card (set ?B) = card (set ?B - set ?A) + card (set ?A \<inter> set ?B)"
    by (metis List.finite_set card_Diff_subset_Int add.commute card_mono diff_add_inverse2 finite_Int inf_le1 le_add_diff_inverse2 Int_commute)
  show ?thesis using m lA lB fA fB cA cB by (simp add: missingKeys_def)
qed

text \<open>
  C5. The missing rows. Every row reported as missing in B is a unique row of A whose
  key is not a key of B, every row reported as missing in A is a unique row of B whose
  key is not a key of A (so no row with a key in both key sets is in either list), and
  for each key that only A has, the rows indexed under it are all the unique rows of A
  with that key, at least one, and all of them are reported as missing in B; likewise
  for the keys that only B has.
\<close>

theorem missing_rows_superset:
  "(\<forall>r \<in> set (rowsMissingInB (runComparison e fa fb cfg)).
      r \<in> set (validUniqueRows (processSource e fa cfg True)) \<and>
      rowKey cfg True r \<notin> set (allKeys (processSource e fb cfg False))) \<and>
   (\<forall>r \<in> set (rowsMissingInA (runComparison e fa fb cfg)).
      r \<in> set (validUniqueRows (processSource e fb cfg False)) \<and>
      rowKey cfg False r \<notin> set (allKeys (processSource e fa cfg True))) \<and>
   (\<forall>k \<in> set (missingKeys (processSource e fa cfg True) (processSource e fb cfg False)).
      \<exists>rows. map_of (keyToRowsMap (processSource e fa cfg True)) k = Some rows \<and> rows \<noteq> [] \<and>
             rows = filter (\<lambda>r. rowKey cfg True r = k) (validUniqueRows (processSource e fa cfg True)) \<and>
             set rows \<subseteq> set (rowsMissingInB (runComparison e fa fb cfg))) \<and>
   (\<forall>k \<in> set (missingKeys (processSource e fb cfg False) (processSource e fa cfg True)).
      \<exists>rows. map_of (keyToRowsMap (processSource e fb cfg False)) k = Some rows \<and> rows \<noteq> [] \<and>
             rows = filter (\<lambda>r. rowKey cfg False r = k) (validUniqueRows (processSource e fb cfg False)) \<and>
             set rows \<subseteq> set (rowsMissingInA (runComparison e fa fb cfg)))"
proof -
  let ?pA = "processSource e fa cfg True"
  let ?pB = "processSource e fb cfg False"
  have rB: "rowsMissingInB (runComparison e fa fb cfg) = rowsForKeys ?pA (missingKeys ?pA ?pB)"
    and rA: "rowsMissingInA (runComparison e fa fb cfg) = rowsForKeys ?pB (missingKeys ?pB ?pA)"
    by (simp_all add: runComparison_def Let_def)
  show ?thesis
    unfolding rA rB
  proof (intro conjI ballI)
    fix r assume "r \<in> set (rowsForKeys ?pA (missingKeys ?pA ?pB))"
    then show "r \<in> set (validUniqueRows ?pA)" and "rowKey cfg True r \<notin> set (allKeys ?pB)"
      unfolding missing_rows_set by simp_all
  next
    fix r assume "r \<in> set (rowsForKeys ?pB (missingKeys ?pB ?pA))"
    then show "r \<in> set (validUniqueRows ?pB)" and "rowKey cfg False r \<notin> set (allKeys ?pA)"
      unfolding missing_rows_set by simp_all
  next
    fix k assume "k \<in> set (missingKeys ?pA ?pB)"
    then show "\<exists>rows. map_of (keyToRowsMap ?pA) k = Some rows \<and> rows \<noteq> [] \<and>
             rows = filter (\<lambda>r. rowKey cfg True r = k) (validUniqueRows ?pA) \<and>
             set rows \<subseteq> set (rowsForKeys ?pA (missingKeys ?pA ?pB))"
      by (rule missing_key_rows)
  next
    fix k assume "k \<in> set (missingKeys ?pB ?pA)"
    then show "\<exists>rows. map_of (keyToRowsMap ?pB) k = Some rows \<and> rows \<noteq> [] \<and>
             rows = filter (\<lambda>r. rowKey cfg False r = k) (validUniqueRows ?pB) \<and>
             set rows \<subseteq> set (rowsForKeys ?pB (missingKeys ?pB ?pA))"
      by (rule missing_key_rows)
  qed
qed

theorem missing_rows_superset_witness:
  "rowsMissingInB (runComparison exampleEnv twiceFile otherFile idConfig) = [[(''ID'', ''2'')]] \<and>
   rowKey idConfig True [(''ID'', ''2'')] \<notin> set (allKeys (processSource exampleEnv otherFile idConfig False)) \<and>
   rowsMissingInA (runComparison exampleEnv twiceFile otherFile idConfig) = [[(''ID'', ''3'')]] \<and>
   rowKey idConfig False [(''ID'', ''3'')] \<notin> set (allKeys (processSource exampleEnv twiceFile idConfig True)) \<and>
   missingKeys (processSource exampleEnv twiceFile idConfig True)
               (processSource exampleEnv otherFile idConfig False) = [''2''] \<and>
   map_of (keyToRowsMap (processSource exampleEnv twiceFile idConfig True)) ''2'' = Some [[(''ID'', ''2'')]]"
proof -
  have ev: "rowsMissingInB (runComparison exampleEnv twiceFile otherFile idConfig) = [[(''ID'', ''2'')]]"
     "rowsMissingInA (runComparison exampleEnv twiceFile otherFile idConfig) = [[(''ID'', ''3'')]]"
     "missingKeys (processSource exampleEnv twiceFile idConfig True)
               (processSource exampleEnv otherFile idConfig False) = [''2'']"
     "validUniqueRows (processSource exampleEnv twiceFile idConfig True) = [[(''ID'', ''1'')], [(''ID'', ''2'')]]"
     "rowKey idConfig True [(''ID'', ''1'')] = ''1''"
     "rowKey idConfig True [(''ID'', ''2'')] = ''2''"
    by code_simp+
  show ?thesis
    using missing_rows_superset [of exampleEnv twiceFile otherFile idConfig] ev
    by simp
qed

section \<open>Deduplication\<close>

text \<open>
  C6. The stats add up, \<open>totalA = validUniqueA + duplicatesA\<close> and likewise for B, for
  every input. The claim adds that a row skipped because its normalization failed is
  accounted separately from the duplicates. It is not: \<open>duplicatesCount\<close> is the
  number of rows less the number of rows kept, so for every file it is the number of
  skipped rows plus the number of rows that repeat a signature. The two rows of the
  example have different outcomes, the first is skipped and no signature is repeated,
  and the run reports one duplicate and logs that it removed one duplicate row.
\<close>

theorem skipped_rows_counted_as_duplicates:
  "totalA (stats (runComparison e fa fb cfg)) =
     validUniqueA (stats (runComparison e fa fb cfg)) +
     duplicatesA (stats (runComparison e fa fb cfg)) \<and>
   totalB (stats (runComparison e fa fb cfg)) =
     validUniqueB (stats (runComparison e fa fb cfg)) +
     duplicatesB (stats (runComparison e fa fb cfg)) \<and>
   duplicatesCount (processSource e f cfg isSourceA) =
     int (length (skippedRows e f cfg isSourceA)) +
     (int (length (filter (rowConvertible (headers f)) (data f))) -
      int (card (rowSignature e (headers f) cfg isSourceA `
                   set (filter (rowConvertible (headers f)) (data f))))) \<and>
   skippedRows exampleEnv brokenFile idConfig True = [PlainObject [(''ID'', bareObject)]] \<and>
   distinct (map (rowSignature exampleEnv (headers brokenFile) idConfig True) (data brokenFile)) \<and>
   stats (runComparison exampleEnv brokenFile onceFile idConfig) =
     \<lparr>totalA = 2, totalB = 1, validUniqueA = 1, validUniqueB = 1, duplicatesA = 1,
      duplicatesB = 0, missingInB = 0, missingInA = 0, matched = 1\<rparr> \<and>
   processSourceLog exampleEnv brokenFile idConfig True =
     [\<lparr>level = Info, message = ''Processing Source A: a.csv (2 rows)...''\<rparr>,
      \<lparr>level = Info, message = ''Source A: Removed 1 duplicate rows.''\<rparr>]"
proof -
  have d: "duplicatesCount (processSource e g cfg a) =
        int (length (data g)) - int (length (validUniqueRows (processSource e g cfg a)))" for g a
    by (simp add: processSource_def Let_def)
  have l: "length (data f) =
           length (filter (rowConvertible (headers f)) (data f)) +
           length (filter (\<lambda>r. \<not> rowConvertible (headers f) r) (data f))"
    by (rule sum_length_filter_compl [symmetric])
  have ev: "skippedRows exampleEnv brokenFile idConfig True = [PlainObject [(''ID'', bareObject)]]"
    "distinct (map (rowSignature exampleEnv (headers brokenFile) idConfig True) (data brokenFile))"
    "stats (runComparison exampleEnv brokenFile onceFile idConfig) =
     \<lparr>totalA = 2, totalB = 1, validUniqueA = 1, validUniqueB = 1, duplicatesA = 1,
      duplicatesB = 0, missingInB = 0, missingInA = 0, matched = 1\<rparr>"
    "processSourceLog exampleEnv brokenFile idConfig True =
     [\<lparr>level = Info, message = ''Processing Source A: a.csv (2 rows)...''\<rparr>,
      \<lparr>level = Info, message = ''Source A: Removed 1 duplicate rows.''\<rparr>]"
    by code_simp+
  have s: "totalA (stats (runComparison e fa fb cfg)) =
     validUniqueA (stats (runComparison e fa fb cfg)) +
     duplicatesA (stats (runComparison e fa fb cfg))"
    "totalB (stats (runComparison e fa fb cfg)) =
     validUniqueB (stats (runComparison e fa fb cfg)) +
     duplicatesB (stats (runComparison e fa fb cfg))"
    by (simp_all add: runComparison_def Let_def d)
  have c: "duplicatesCount (processSource e f cfg isSourceA) =
     int (length (skippedRows e f cfg isSourceA)) +
     (int (length (filter (rowConvertible (headers f)) (data f))) -
      int (card (rowSignature e (headers f) cfg isSourceA `
                   set (filter (rowConvertible (headers f)) (data f)))))"
    using l by (simp add: d skippedRows_filter validUniqueRows_length)
  show ?thesis using s c ev by simp
qed

section \<open>Idempotence of the normalizer\<close>

text \<open>
  C3, as the claim states it: normalizing a normalized value changes nothing, for every
  value, field, side and rule set. With white space kept and leading zeros removed, the
  value \<open>0 1\<close> is trimmed and loses its zero, which leaves a space in front; a second
  pass trims that space.
\<close>

theorem normalizeValue_not_idempotent:
  "normalizeValue exampleEnv (JStr ''0 1'') ''ID'' keepSpaceConfig True = Inr '' 1'' \<and>
   normalizeAgain exampleEnv (JStr ''0 1'') ''ID'' keepSpaceConfig True = Inr ''1''"
  by code_simp

text \<open>
  A date field is read through the engine's \<open>new Date(s)\<close> once its value is an ISO
  date, and printed in local time: behind UTC each pass moves the date back by a day.
\<close>

lemma normalizeValue_date_behind_UTC:
  "normalizeValue westEnv (JStr ''2025-12-03'') ''DATE'' dateConfig True = Inr ''2025-12-02'' \<and>
   normalizeAgain westEnv (JStr ''2025-12-03'') ''DATE'' dateConfig True = Inr ''2025-12-01''"
  by code_simp

text \<open>
  C3, amended. The normalizer is idempotent on every value, for a field and side to
  which date normalization does not apply, when white space is removed globally or
  leading zeros are not removed from the field.
\<close>

theorem normalizeValue_idempotent:
  assumes nd: "\<not> datesApply cfg fieldName isSourceA"
    and ws: "trimWhitespace (rules cfg) \<or> \<not> zerosApply cfg fieldName isSourceA"
  shows "normalizeAgain e v fieldName cfg isSourceA = normalizeValue e v fieldName cfg isSourceA"
proof (cases "String_js (js_or v (JStr []))")
  case (Inl err)
  then show ?thesis by (simp add: normalizeAgain_def normalizeValue_def)
next
  case (Inr str)
  let ?t = "trim str"
  note plain = normalizeValue_plain [OF nd Inr] normalizeValue_plain [OF nd String_js_or_JStr]
  show ?thesis
  proof (cases "trimWhitespace (rules cfg)")
    case True
    show ?thesis
    proof (cases "zerosApply cfg fieldName isSourceA")
      case z: True
      have "\<forall>c\<in>set (removeLeadingZeros (removeWhitespace ?t)). \<not> is_space c"
        by (rule removeLeadingZeros_no_space) (rule removeWhitespace_clean)
      then have "removeWhitespace (trim (removeLeadingZeros (removeWhitespace ?t))) =
                 removeLeadingZeros (removeWhitespace ?t)"
        by (rule clean_again)
      then show ?thesis
        using True z by (simp add: normalizeAgain_def plain removeLeadingZeros_idem)
    next
      case z: False
      have "removeWhitespace (trim (removeWhitespace ?t)) = removeWhitespace ?t"
        by (rule clean_again) (rule removeWhitespace_clean)
      then show ?thesis
        using True z by (simp add: normalizeAgain_def plain)
    qed
  next
    case False
    with ws have "\<not> zerosApply cfg fieldName isSourceA" by simp
    then show ?thesis
      using False by (simp add: normalizeAgain_def plain trim_trim)
  qed
qed

theorem normalizeValue_idempotent_witness:
  "\<not> datesApply idConfig ''DOC_NUMBER'' True \<and>
   (trimWhitespace (rules idConfig) \<or> \<not> zerosApply idConfig ''DOC_NUMBER'' True) \<and>
   normalizeValue exampleEnv (JStr '' 00 7 '') ''DOC_NUMBER'' idConfig True = Inr ''7'' \<and>
   normalizeAgain exampleEnv (JStr '' 00 7 '') ''DOC_NUMBER'' idConfig True = Inr ''7''"
proof -
  have h: "\<not> datesApply idConfig ''DOC_NUMBER'' True"
     "trimWhitespace (rules idConfig) \<or> \<not> zerosApply idConfig ''DOC_NUMBER'' True"
     "normalizeValue exampleEnv (JStr '' 00 7 '') ''DOC_NUMBER'' idConfig True = Inr ''7''"
    by code_simp+
  show ?thesis
    using h normalizeValue_idempotent [OF h(1) h(2), of exampleEnv "JStr '' 00 7 ''"] by simp
qed

section \<open>The date 3-DEC-25\<close>

text \<open>
  C8, as the claim states it: for a date field, \<open>3-DEC-25\<close> is normalized to
  \<open>2025-12-03\<close>. The two-digit year is read by the format \<open>d-MMM-yy\<close> relative to
  the current year, which \<open>normalizeValue\<close> passes to \<open>parse\<close> as \<open>new Date()\<close>: in a
  run of the year 2076 the year 25 is 2125, no format gives a year below 2100, and the
  value stays as re-cased.
\<close>

theorem normalizeValue_3_DEC_25_in_2076:
  "normalizeValue lateEnv (JStr ''3-DEC-25'') ''DATE'' dateConfig True = Inr ''3-Dec-25''"
  by code_simp

text \<open>
  C8, amended. For a field with date normalization enabled on its side, in a run whose
  current year is from 1976 to 2075, the value \<open>3-DEC-25\<close> matches the
  day-month-year pattern and is re-cased to \<open>3-Dec-25\<close>; the first eight formats of the
  list do not parse it; the ninth, \<open>d-MMM-yy\<close>, parses it to 3 December 2025; and the
  normalized value is \<open>2025-12-03\<close>, whatever the other rules are.
\<close>

theorem normalizeValue_3_DEC_25:
  assumes d: "datesApply cfg fieldName isSourceA"
    and y: "1976 \<le> fullYear (now e)" "fullYear (now e) \<le> 2075"
  shows "isDayMonthAbbrevYear ''3-DEC-25'' \<and>
         capitalizeWords False (toLowerCase ''3-DEC-25'') = ''3-Dec-25'' \<and>
         probeFormats e ''3-Dec-25'' (take 8 dateFormats) = Inr None \<and>
         parse ''3-Dec-25'' (dateFormats ! 8) (now e) =
           Inr (Some \<lparr>fullYear = 2025, monthIndex = 11, dayOfMonth = 3\<rparr>) \<and>
         normalizeValue e (JStr ''3-DEC-25'') fieldName cfg isSourceA = Inr ''2025-12-03''"
proof -
  have nd: "normalizeDate e ''3-DEC-25'' = Inr ''2025-12-03''"
    by (simp add: normalizeDate_def Let_def recase_3_DEC_25 probeFormats_3_Dec_25(3) [OF y] isValid_def)
  have "normalizeValue e (JStr ''3-DEC-25'') fieldName cfg isSourceA = normalizeDate e ''3-DEC-25''"
    using d by (simp add: normalizeValue_def Let_def recase_3_DEC_25 datesApply_def)
  with nd show ?thesis
    by (simp add: recase_3_DEC_25 probeFormats_3_Dec_25 [OF y])
qed

theorem normalizeValue_3_DEC_25_witness:
  "datesApply dateConfig ''DATE'' True \<and> 1976 \<le> fullYear (now exampleEnv) \<and>
   fullYear (now exampleEnv) \<le> 2075 \<and>
   normalizeValue exampleEnv (JStr ''3-DEC-25'') ''DATE'' dateConfig True = Inr ''2025-12-03''"
proof -
  have h: "datesApply dateConfig ''DATE'' True" "1976 \<le> fullYear (now exampleEnv)"
    "fullYear (now exampleEnv) \<le> 2075"
    by code_simp+
  show ?thesis
    using h normalizeValue_3_DEC_25 [OF h] by simp
qed

section \<open>Determinism\<close>

text \<open>
  C7, as the claim states it: two runs on the same files and configuration give the
  same result but for the timestamp. Source A writes a day as \<open>3-DEC-25\<close>, source B
  as \<open>03/12/2025\<close>, and the field is a date field and the key of both. \<open>normalizeValue\<close>
  hands the current date to \<open>parse\<close>, which resolves a two-digit year to the century
  within fifty years of it. A run of 2025 reads the year 25 as 2025 and matches the two
  rows; a run of 2076 reads it as 2125, which is no year below 2100, leaves the value
  of source A as it is, and reports a row missing on each side.
\<close>

theorem runComparison_depends_on_year:
  "runComparison exampleEnv abbrevDateFile slashDateFile dateConfig =
     \<lparr>stats =
        \<lparr>totalA = 1, totalB = 1, validUniqueA = 1, validUniqueB = 1, duplicatesA = 0,
         duplicatesB = 0, missingInB = 0, missingInA = 0, matched = 1\<rparr>,
      rowsMissingInB = [], rowsMissingInA = [], duplicatedRowsA = None, duplicatedRowsB = None,
      timestamp = ''2025-06-15T10:00:00.000Z'', sourceAName = ''b.csv'', sourceBName = ''c.csv''\<rparr> \<and>
   runComparison lateEnv abbrevDateFile slashDateFile dateConfig =
     \<lparr>stats =
        \<lparr>totalA = 1, totalB = 1, validUniqueA = 1, validUniqueB = 1, duplicatesA = 0,
         duplicatesB = 0, missingInB = 1, missingInA = 1, matched = 0\<rparr>,
      rowsMissingInB = [[(''DATE'', ''3-Dec-25'')]],
      rowsMissingInA = [[(''DATE'', ''2025-12-03'')]],
      duplicatedRowsA = None, duplicatedRowsB = None,
      timestamp = ''2025-06-15T10:00:00.000Z'', sourceAName = ''b.csv'', sourceBName = ''c.csv''\<rparr>"
  by code_simp

text \<open>
  C7, amended. Two runs on the same files and configuration give results that agree in
  every field but the timestamp, whatever the day, the time zone and the engine of each
  run, when for every cell of a date field the value that reaches the date step is not
  of the form YYYY-MM-DD and each two-digit year that \<open>parse\<close> reads in it is resolved
  to the same full year in both runs; two runs of the same calendar year resolve every
  two-digit year alike. Nothing is said here about values of the form YYYY-MM-DD.
\<close>

theorem runComparison_repeatable:
  assumes "fileStable e e' cfg True fa" and "fileStable e e' cfg False fb"
  shows "(runComparison e fa fb cfg)\<lparr>timestamp := t\<rparr> = (runComparison e' fa fb cfg)\<lparr>timestamp := t\<rparr>"
  by (simp add: runComparison_def processSource_stable [OF assms(1)]
      processSource_stable [OF assms(2)] Let_def)

theorem runComparison_repeatable_witness:
  "fileStable exampleEnv nextYearEnv dateConfig True abbrevDateFile \<and>
   fileStable exampleEnv nextYearEnv dateConfig False slashDateFile \<and>
   now exampleEnv = \<lparr>fullYear = 2025, monthIndex = 5, dayOfMonth = 15\<rparr> \<and>
   now nextYearEnv = \<lparr>fullYear = 2026, monthIndex = 0, dayOfMonth = 2\<rparr> \<and>
   (runComparison exampleEnv abbrevDateFile slashDateFile dateConfig)\<lparr>timestamp := []\<rparr> =
   (runComparison nextYearEnv abbrevDateFile slashDateFile dateConfig)\<lparr>timestamp := []\<rparr>"
proof -
  have h: "fileStable exampleEnv nextYearEnv dateConfig True abbrevDateFile"
    "fileStable exampleEnv nextYearEnv dateConfig False slashDateFile"
    "now exampleEnv = \<lparr>fullYear = 2025, monthIndex = 5, dayOfMonth = 15\<rparr>"
    "now nextYearEnv = \<lparr>fullYear = 2026, monthIndex = 0, dayOfMonth = 2\<rparr>"
    by code_simp+
  show ?thesis
    using h runComparison_repeatable [OF h(1) h(2), where t = "[]"] by simp
qed

end
